(* ===== verification/Blog_Prelude.thy ===== *)
theory Blog_Prelude
  imports Main
begin

text \<open>
  Shared vocabulary of the development: the JavaScript string operations the client
  calls (\<open>String.prototype.replace\<close> with the pattern \<open>/\s/g\<close>,
  \<open>String.prototype.split\<close> and \<open>Array.prototype.join\<close> with a one-character
  separator), JavaScript truthiness of an optional string, the transport types of the
  REST contract (the Post resource, request paths and payloads, transport errors as the
  left summand of a response), and the lemmas about them that the component theories
  share.  Strings are \<open>char list\<close>; \<open>char\<close> is the 8-bit range, so the model
  covers the Latin-1 part of JavaScript's UTF-16 strings.
\<close>

named_theorems js_simps \<open>characteristic equations of the JavaScript string model\<close>

section \<open>JavaScript strings\<close>

text \<open>
  \<open>\s\<close> in a JavaScript regular expression matches WhiteSpace and LineTerminator;
  in the Latin-1 range these are TAB, LF, VT, FF, CR, SPACE and NBSP.
\<close>

definition js_ws_codes :: "nat list" where
  "js_ws_codes = [9, 10, 11, 12, 13, 32, 160]"

definition js_is_space :: "char \<Rightarrow> bool" where
  "js_is_space c \<longleftrightarrow> of_char c \<in> set js_ws_codes"

text \<open>\<open>s.replace(/\s/g, "")\<close>: every whitespace character is removed.\<close>

definition js_strip_ws :: "string \<Rightarrow> string" where
  "js_strip_ws s = filter (\<lambda>c. \<not> js_is_space c) s"

text \<open>
  \<open>s.split(sep)\<close> for a one-character separator: the pieces between separators,
  including empty ones; the empty string gives one empty piece.  The accumulator holds
  the current piece reversed.
\<close>

fun js_split_acc :: "char \<Rightarrow> string \<Rightarrow> string \<Rightarrow> string list" where
  "js_split_acc sep acc [] = [rev acc]"
| "js_split_acc sep acc (c # cs) =
     (if c = sep then rev acc # js_split_acc sep [] cs
      else js_split_acc sep (c # acc) cs)"

definition js_split :: "char \<Rightarrow> string \<Rightarrow> string list" where
  "js_split sep s = js_split_acc sep [] s"

text \<open>\<open>xs.join(sep)\<close> on an array of strings.\<close>

fun js_join :: "char \<Rightarrow> string list \<Rightarrow> string" where
  "js_join sep [] = []"
| "js_join sep [x] = x"
| "js_join sep (x # y # xs) = x @ sep # js_join sep (y # xs)"

text \<open>
  A value that may be \<open>undefined\<close> (a route parameter, a missing field) is
  \<open>string option\<close>.  Its truthiness, and its rendering inside a template literal.
\<close>

definition js_truthy :: "string option \<Rightarrow> bool" where
  "js_truthy v \<longleftrightarrow> (case v of None \<Rightarrow> False | Some s \<Rightarrow> s \<noteq> [])"

definition js_template :: "string option \<Rightarrow> string" where
  "js_template v = (case v of None \<Rightarrow> ''undefined'' | Some s \<Rightarrow> s)"

section \<open>The REST contract\<close>

text \<open>The Post resource as the server returns it (\<open>_id\<close>, title, text, tags, ...).\<close>

record post =
  post_id :: string
  post_title :: string
  post_text :: string
  post_tags :: "string list"
  post_imageUrl :: string
  post_user :: string
  post_createdAt :: string
  post_viewsCount :: nat

text \<open>The object \<open>{title, imageUrl, tags, text}\<close> sent on create and update.\<close>

record post_fields =
  fld_title :: string
  fld_imageUrl :: string
  fld_tags :: "string list"
  fld_text :: string

datatype payload = Fields post_fields | FormImage string

datatype http_request =
    HttpGet string
  | HttpPost string payload
  | HttpPatch string payload

text \<open>A rejected axios promise: a network failure or an HTTP error status.\<close>

datatype transport_error = NetworkError | HttpStatus nat

type_synonym 'a response = "transport_error + 'a"

definition post_path :: "string \<Rightarrow> string" where
  "post_path i = ''/posts/'' @ i"

definition attachment_host :: string where
  "attachment_host = ''http://localhost:4444''"

definition remove_nth :: "nat \<Rightarrow> 'a list \<Rightarrow> 'a list" where
  "remove_nth i xs = take i xs @ drop (Suc i) xs"

section \<open>Lemmas on the string model\<close>

lemma js_split_acc_not_Nil [js_simps]: "js_split_acc sep acc s \<noteq> []"
  by (induction sep acc s rule: js_split_acc.induct) auto

lemma js_split_not_Nil [simp]: "js_split sep s \<noteq> []"
  by (simp add: js_split_def js_split_acc_not_Nil)

lemma js_split_Nil [simp]: "js_split sep [] = [[]]"
  by (simp add: js_split_def)

lemma js_join_Cons [js_simps]:
  "xs \<noteq> [] \<Longrightarrow> js_join sep (x # xs) = x @ sep # js_join sep xs"
  by (cases xs) auto

lemma js_join_split_acc:
  "js_join sep (js_split_acc sep acc s) = rev acc @ s"
proof (induction sep acc s rule: js_split_acc.induct)
  case (1 sep acc)
  then show ?case by simp
next
  case (2 sep acc c cs)
  then show ?case by (auto simp: js_join_Cons js_split_acc_not_Nil)
qed

text \<open>Joining the pieces of a split gives the string back.\<close>

lemma js_join_split [simp]: "js_join sep (js_split sep s) = s"
  by (simp add: js_split_def js_join_split_acc)

lemma js_split_acc_append:
  "sep \<notin> set w \<Longrightarrow> js_split_acc sep acc (w @ rest) = js_split_acc sep (rev w @ acc) rest"
  by (induction w arbitrary: acc) auto

lemma js_split_acc_join:
  "xs \<noteq> [] \<Longrightarrow> \<forall>x\<in>set xs. sep \<notin> set x \<Longrightarrow>
   js_split_acc sep acc (js_join sep xs) = (rev acc @ hd xs) # tl xs"
proof (induction xs arbitrary: acc rule: js_join.induct)
  case (1 sep)
  then show ?case by simp
next
  case (2 sep x)
  then show ?case
    using js_split_acc_append [of sep x acc "[]"] by simp
next
  case (3 sep x y xs)
  then show ?case
    by (simp add: js_split_acc_append)
qed

text \<open>Splitting a join gives the pieces back when no piece holds the separator.\<close>

lemma js_split_join [js_simps]:
  "xs \<noteq> [] \<Longrightarrow> \<forall>x\<in>set xs. sep \<notin> set x \<Longrightarrow> js_split sep (js_join sep xs) = xs"
  by (simp add: js_split_def js_split_acc_join)

lemma js_strip_ws_append [js_simps]:
  "js_strip_ws (xs @ ys) = js_strip_ws xs @ js_strip_ws ys"
  by (simp add: js_strip_ws_def)

lemma js_strip_ws_Cons [js_simps]:
  "js_strip_ws (c # cs) = (if js_is_space c then js_strip_ws cs else c # js_strip_ws cs)"
  by (simp add: js_strip_ws_def)

lemma js_strip_ws_Nil [simp]: "js_strip_ws [] = []"
  by (simp add: js_strip_ws_def)

lemma js_strip_ws_no_space [js_simps]: "\<not> (\<exists>c\<in>set (js_strip_ws s). js_is_space c)"
  by (simp add: js_strip_ws_def)

lemma js_strip_ws_id [js_simps]:
  "\<forall>c\<in>set s. \<not> js_is_space c \<Longrightarrow> js_strip_ws s = s"
  by (simp add: js_strip_ws_def)

lemma set_js_strip_ws [js_simps]: "set (js_strip_ws s) = {c \<in> set s. \<not> js_is_space c}"
  by (auto simp: js_strip_ws_def)

lemma comma_not_space [simp]: "\<not> js_is_space (CHR '','')"
  by (simp add: js_is_space_def js_ws_codes_def)

lemma slash_not_space [simp]: "\<not> js_is_space (CHR ''/'')"
  by (simp add: js_is_space_def js_ws_codes_def)

lemma js_strip_ws_join [js_simps]:
  "\<not> js_is_space sep \<Longrightarrow> js_strip_ws (js_join sep xs) = js_join sep (map js_strip_ws xs)"
  by (induction sep xs rule: js_join.induct) (simp_all add: js_strip_ws_append js_strip_ws_Cons)

lemma js_truthy_Some [simp]: "js_truthy (Some s) \<longleftrightarrow> s \<noteq> []"
  by (simp add: js_truthy_def)

lemma js_truthy_None [simp]: "\<not> js_truthy None"
  by (simp add: js_truthy_def)

lemma length_remove_nth [simp]: "i < length xs \<Longrightarrow> length (remove_nth i xs) = length xs - 1"
  by (simp add: remove_nth_def)

lemma set_remove_nth: "set (remove_nth i xs) \<subseteq> set xs"
  by (auto simp: remove_nth_def dest: in_set_takeD in_set_dropD)


lemma list_all_list_update [simp]: "list_all P xs \<Longrightarrow> P x \<Longrightarrow> list_all P (xs[n := x])"
  by (auto simp: list_all_iff dest: set_update_subset_insert [THEN subsetD])

lemma js_split_acc_pieces:
  "t \<in> set (js_split_acc sep acc s) \<Longrightarrow> sep \<notin> set acc \<Longrightarrow> sep \<notin> set t \<and> set t \<subseteq> set acc \<union> set s"
proof (induction sep acc s rule: js_split_acc.induct)
  case (1 sep acc)
  then show ?case by auto
next
  case (2 sep acc c cs)
  then show ?case by (auto split: if_splits)
qed

text \<open>No piece of a split holds the separator, and every piece is made of the input's characters.\<close>

lemma js_split_pieces [js_simps]:
  "t \<in> set (js_split sep s) \<Longrightarrow> sep \<notin> set t \<and> set t \<subseteq> set s"
  using js_split_acc_pieces [of t sep "[]" s] by (simp add: js_split_def)

lemma length_js_split_acc: "length (js_split_acc sep acc s) = Suc (count_list s sep)"
  by (induction sep acc s rule: js_split_acc.induct) auto

text \<open>There is one more piece than there are separators.\<close>

lemma length_js_split [js_simps]: "length (js_split sep s) = Suc (count_list s sep)"
  by (simp add: js_split_def length_js_split_acc)

end
