(* ===== verification/Auth_Gate.thy ===== *)
theory Auth_Gate
  imports Blog_Prelude
begin

text \<open>
  The authentication state the client reads (AuthGate of the spec): the user payload
  of the redux auth slice and the token persisted in \<open>localStorage\<close>.  The slice
  itself (\<open>redux/slices/auth\<close>) is not part of \<open>src/\<close>; its selector, its
  \<open>logout\<close> reducer and the settlement of \<open>fetchAuthMe\<close> are modelled from the
  spec.  The write gate is the condition of \<open>AddPost\<close> (AddPost/index.jsx, line
  107); logout and the header's buttons are \<open>Header\<close> (components/Header).
\<close>

record auth_session =
  auth_data :: "string option"
  local_token :: "string option"

text \<open>\<open>selectIsAuth\<close>: the slice holds a user payload.\<close>

definition selectIsAuth :: "auth_session \<Rightarrow> bool" where
  "selectIsAuth a \<longleftrightarrow> auth_data a \<noteq> None"

text \<open>The \<open>logout\<close> reducer clears the payload; it does not touch storage.\<close>

definition logout_reducer :: "auth_session \<Rightarrow> auth_session" where
  "logout_reducer a = a\<lparr>auth_data := None\<rparr>"

text \<open>\<open>fetchAuthMe\<close> settles: fulfilled stores the payload, rejected clears it.\<close>

fun fetchAuthMe_settle :: "string response \<Rightarrow> auth_session \<Rightarrow> auth_session" where
  "fetchAuthMe_settle (Inr user) a = a\<lparr>auth_data := Some user\<rparr>"
| "fetchAuthMe_settle (Inl err) a = a\<lparr>auth_data := None\<rparr>"

text \<open>
  The request \<open>fetchAuthMe\<close> sends: a GET of the who-am-I resource through the
  axios instance, which attaches the token stored when the request is issued.
\<close>

definition fetchAuthMe_request :: http_request where
  "fetchAuthMe_request = HttpGet ''/auth/me''"

text \<open>
  The gate of \<open>AddPost\<close>:
  \<open>if (!window.localStorage.getItem("token") && !isAuth) return <Navigate to="/" />\<close>.
  Writing is allowed unless both tests fail.
\<close>

definition can_write :: "auth_session \<Rightarrow> bool" where
  "can_write a \<longleftrightarrow> \<not> (\<not> js_truthy (local_token a) \<and> \<not> selectIsAuth a)"

text \<open>The header shows "Write an article" and "Exit" when \<open>isAuth\<close>, else login and register links.\<close>

datatype header_buttons = WriteAndExit | LoginAndRegister

definition header_view :: "auth_session \<Rightarrow> header_buttons" where
  "header_view a = (if selectIsAuth a then WriteAndExit else LoginAndRegister)"

text \<open>
  \<open>onClickLogout\<close>: when the confirmation dialog is accepted, dispatch
  \<open>logout()\<close> and remove the token; otherwise nothing.
\<close>

definition onClickLogout :: "bool \<Rightarrow> auth_session \<Rightarrow> auth_session" where
  "onClickLogout confirmed a =
     (if confirmed then (logout_reducer a)\<lparr>local_token := None\<rparr> else a)"

text \<open>
  What the header renders, in order: the logo link home, then either the link to the
  editor and the logout button, or the links to the login and registration pages.  The
  login link is labelled "Exit", as in the source (line 41).
\<close>

datatype header_item = HLink string string | HButton string

definition header_items :: "auth_session \<Rightarrow> header_item list" where
  "header_items a = HLink ''WIZMINE BLOG'' ''/'' #
     (if selectIsAuth a then [HLink ''Write an article'' ''/add-post'', HButton ''Exit'']
      else [HLink ''Exit'' ''/login'', HLink ''Create account'' ''/register''])"

lemma can_write_iff:
  "can_write a \<longleftrightarrow> (\<exists>t. local_token a = Some t \<and> t \<noteq> []) \<or> auth_data a \<noteq> None"
  by (auto simp: can_write_def selectIsAuth_def js_truthy_def split: option.splits)

lemma selectIsAuth_can_write: "selectIsAuth a \<Longrightarrow> can_write a"
  by (simp add: can_write_def)

lemma header_items_add_post:
  "HLink l ''/add-post'' \<in> set (header_items a) \<Longrightarrow> selectIsAuth a"
  by (auto simp: header_items_def split: if_splits)


text \<open>
  C24. The gate trusts the stored token without re-validation: when \<open>fetchAuthMe\<close>
  is rejected (the server does not accept the session) but a non-empty token is still
  stored, the gate still lets the actor write, while the header, which reads only the
  payload, shows the login and register links.
\<close>

theorem stale_token_keeps_write_access:
  assumes "js_truthy (local_token a)"
  shows "can_write (fetchAuthMe_settle (Inl err) a) \<and>
         header_view (fetchAuthMe_settle (Inl err) a) = LoginAndRegister"
  using assms by (simp add: can_write_def header_view_def selectIsAuth_def)

theorem stale_token_keeps_write_access_witness:
  "can_write (fetchAuthMe_settle (Inl (HttpStatus 403)) \<lparr>auth_data = None, local_token = Some ''tok''\<rparr>) \<and>
   header_view (fetchAuthMe_settle (Inl (HttpStatus 403)) \<lparr>auth_data = None, local_token = Some ''tok''\<rparr>)
     = LoginAndRegister"
  by (rule stale_token_keeps_write_access) simp

end
