(* ===== verification/Post_Editor.thy ===== *)
theory Post_Editor
  imports Auth_Gate
begin

text \<open>
  The create/edit form \<open>AddPost\<close> (src/src/pages/AddPost/index.jsx), the
  PostEditorWorkflow of the spec.  The component's hooks (\<open>useParams\<close>, the five
  \<open>useState\<close> cells) are the fields of the record \<open>editor\<close>; the requests it has
  issued and not yet seen settle are \<open>ed_inflight\<close>, each with the continuation the
  awaiting closure will run (\<open>ed_cont\<close>, with what the closure captured); the alerts
  it raised and the navigations it requested are recorded in issue order.  Each
  handler of the source is one definition; \<open>ed_step\<close> dispatches one event (a user
  action, a change of the route parameter, unmounting, or the settlement of one
  in-flight request, in any order), and \<open>ed_reach\<close> is the set of states a mounted
  editor can reach.
\<close>

section \<open>State\<close>

datatype ed_cont = KLoad | KUpload | KSubmit bool "string option"

record editor =
  ed_param :: "string option"
  isLoading :: bool
  ed_text :: string
  ed_title :: string
  stringTags :: string
  ed_imageUrl :: string
  ed_mounted :: bool
  ed_inflight :: "(http_request \<times> ed_cont) list"
  ed_alerts :: "string list"
  ed_navigations :: "string list"

text \<open>\<open>const isEditing = Boolean(id)\<close>.\<close>

definition is_editing :: "editor \<Rightarrow> bool" where
  "is_editing s \<longleftrightarrow> js_truthy (ed_param s)"

text \<open>A state setter of React: it has no effect once the component is unmounted.\<close>

definition ed_set :: "(editor \<Rightarrow> editor) \<Rightarrow> editor \<Rightarrow> editor" where
  "ed_set f s = (if ed_mounted s then f s else s)"

text \<open>Issuing an axios call whose promise the closure awaits with continuation \<open>k\<close>.\<close>

definition ed_issue :: "http_request \<Rightarrow> ed_cont \<Rightarrow> editor \<Rightarrow> editor" where
  "ed_issue req k s = s\<lparr>ed_inflight := ed_inflight s @ [(req, k)]\<rparr>"

text \<open>\<open>alert(msg)\<close> runs in the closure and is shown even after unmounting.\<close>

definition ed_alert :: "string \<Rightarrow> editor \<Rightarrow> editor" where
  "ed_alert msg s = s\<lparr>ed_alerts := ed_alerts s @ [msg]\<rparr>"

section \<open>Handlers\<close>

text \<open>\<open>handleChangeFile\<close>: post the file as form field \<open>image\<close> to \<open>/upload\<close>.\<close>

definition handleChangeFile :: "string \<Rightarrow> editor \<Rightarrow> editor" where
  "handleChangeFile file s = ed_issue (HttpPost ''/upload'' (FormImage file)) KUpload s"

text \<open>The rest of \<open>handleChangeFile\<close> after the \<open>await\<close>: the \<open>try\<close> and \<open>catch\<close> arms.\<close>

fun upload_settle :: "string response \<Rightarrow> editor \<Rightarrow> editor" where
  "upload_settle (Inr url) s = ed_set (\<lambda>s. s\<lparr>ed_imageUrl := url\<rparr>) s"
| "upload_settle (Inl err) s = ed_alert ''Error loading file!'' s"

definition onClickRemoveImage :: "editor \<Rightarrow> editor" where
  "onClickRemoveImage s = ed_set (\<lambda>s. s\<lparr>ed_imageUrl := []\<rparr>) s"

text \<open>\<open>stringTags.replace(/\s/g, "").split(",")\<close>.\<close>

definition derive_tags :: "string \<Rightarrow> string list" where
  "derive_tags st = js_split CHR '','' (js_strip_ws st)"

definition submit_fields :: "editor \<Rightarrow> post_fields" where
  "submit_fields s =
     \<lparr>fld_title = ed_title s, fld_imageUrl = ed_imageUrl s,
      fld_tags = derive_tags (stringTags s), fld_text = ed_text s\<rparr>"

definition submit_request :: "editor \<Rightarrow> http_request" where
  "submit_request s =
     (if is_editing s then HttpPatch (post_path (js_template (ed_param s))) (Fields (submit_fields s))
      else HttpPost ''/posts'' (Fields (submit_fields s)))"

text \<open>\<open>onSubmit\<close> up to its \<open>await\<close>: \<open>setLoading(true)\<close>, build the fields, send.\<close>

definition onSubmit :: "editor \<Rightarrow> editor" where
  "onSubmit s =
     ed_issue (submit_request s) (KSubmit (is_editing s) (ed_param s))
       (ed_set (\<lambda>s. s\<lparr>isLoading := True\<rparr>) s)"

text \<open>
  The rest of \<open>onSubmit\<close>: on success navigate to the article, with the route's
  \<open>id\<close> when editing and the server's \<open>_id\<close> when creating; on failure alert.
\<close>

fun submit_settle :: "bool \<Rightarrow> string option \<Rightarrow> post response \<Rightarrow> editor \<Rightarrow> editor" where
  "submit_settle editing i (Inr data) s =
     s\<lparr>ed_navigations := ed_navigations s @
        [post_path (if editing then js_template i else post_id data)]\<rparr>"
| "submit_settle editing i (Inl err) s = ed_alert ''Error while creating article!'' s"

text \<open>The \<open>.then\<close> arm of the load effect: the four setters.\<close>

definition load_then :: "post \<Rightarrow> editor \<Rightarrow> editor" where
  "load_then data s =
     ed_set (\<lambda>s. s\<lparr>ed_title := post_title data, ed_text := post_text data,
                    stringTags := js_join CHR '','' (post_tags data),
                    ed_imageUrl := post_imageUrl data\<rparr>) s"

fun load_settle :: "post response \<Rightarrow> editor \<Rightarrow> editor" where
  "load_settle (Inr data) s = load_then data s"
| "load_settle (Inl err) s = ed_alert ''Error while getting article!'' s"

text \<open>The effect with dependencies \<open>[id]\<close>: \<open>if (id) axios.get(`/posts/${id}`)\<close>.\<close>

definition load_effect :: "editor \<Rightarrow> editor" where
  "load_effect s =
     (if js_truthy (ed_param s)
      then ed_issue (HttpGet (post_path (js_template (ed_param s)))) KLoad s
      else s)"

text \<open>
  Mounting: the hooks start empty and the effect runs after the first render.  The
  gate is part of rendering (below), so mounting happens whatever the session.
\<close>

definition add_post_mount :: "string option \<Rightarrow> editor" where
  "add_post_mount i = load_effect
     \<lparr>ed_param = i, isLoading = False, ed_text = [], ed_title = [], stringTags = [],
      ed_imageUrl = [], ed_mounted = True, ed_inflight = [], ed_alerts = [],
      ed_navigations = []\<rparr>"

text \<open>A new route parameter re-runs the effect; the state cells are kept.\<close>

definition param_change :: "string option \<Rightarrow> editor \<Rightarrow> editor" where
  "param_change i s = (if i = ed_param s then s else load_effect (s\<lparr>ed_param := i\<rparr>))"

section \<open>Rendering\<close>

text \<open>
  The options object given to SimpleMDE (\<open>useMemo\<close> with no dependencies, so one
  value for the component's lifetime).  Autosave is requested without a \<open>uniqueId\<close>.
\<close>

record mde_options =
  spellChecker :: bool
  maxHeight :: string
  autofocus :: bool
  placeholder :: string
  mde_status :: bool
  autosave_enabled :: bool
  autosave_delay :: nat

definition add_post_options :: mde_options where
  "add_post_options = \<lparr>spellChecker = False, maxHeight = ''400px'', autofocus = True,
     placeholder = ''Enter text...'', mde_status = False, autosave_enabled = True, autosave_delay = 1000\<rparr>"

record editor_form =
  form_title :: string
  form_tags :: string
  form_text :: string
  form_preview :: "string option"
  form_button :: string
  form_options :: mde_options

datatype editor_view = RedirectHome | Form editor_form

definition render_add_post :: "auth_session \<Rightarrow> editor \<Rightarrow> editor_view" where
  "render_add_post a s =
     (if \<not> can_write a then RedirectHome
      else Form \<lparr>form_title = ed_title s, form_tags = stringTags s, form_text = ed_text s,
                 form_preview = (if ed_imageUrl s \<noteq> [] then Some (attachment_host @ ed_imageUrl s)
                                 else None),
                 form_button = (if is_editing s then ''Save'' else ''Create''),
                 form_options = add_post_options\<rparr>)"

section \<open>Events\<close>

datatype ed_event =
    ChangeTitle string
  | ChangeTags string
  | ChangeText string
  | ChangeFile string
  | RemoveImage
  | Submit
  | ParamChange "string option"
  | Unmount
  | LoadSettles nat "post response"
  | UploadSettles nat "string response"
  | SubmitSettles nat "post response"

definition take_inflight :: "nat \<Rightarrow> editor \<Rightarrow> ((http_request \<times> ed_cont) \<times> editor) option" where
  "take_inflight i s =
     (if i < length (ed_inflight s)
      then Some (ed_inflight s ! i, s\<lparr>ed_inflight := remove_nth i (ed_inflight s)\<rparr>)
      else None)"

text \<open>A user action needs the component on screen.\<close>

definition ui_event :: "(editor \<Rightarrow> editor) \<Rightarrow> editor \<Rightarrow> editor option" where
  "ui_event f s = (if ed_mounted s then Some (f s) else None)"

fun ed_step :: "ed_event \<Rightarrow> editor \<Rightarrow> editor option" where
  "ed_step (ChangeTitle v) s = ui_event (ed_set (\<lambda>s. s\<lparr>ed_title := v\<rparr>)) s"
| "ed_step (ChangeTags v) s = ui_event (ed_set (\<lambda>s. s\<lparr>stringTags := v\<rparr>)) s"
| "ed_step (ChangeText v) s = ui_event (ed_set (\<lambda>s. s\<lparr>ed_text := v\<rparr>)) s"
| "ed_step (ChangeFile f) s = ui_event (handleChangeFile f) s"
| "ed_step RemoveImage s = (if ed_imageUrl s \<noteq> [] then ui_event onClickRemoveImage s else None)"
| "ed_step Submit s = ui_event onSubmit s"
| "ed_step (ParamChange i) s = ui_event (param_change i) s"
| "ed_step Unmount s = ui_event (\<lambda>s. s\<lparr>ed_mounted := False\<rparr>) s"
| "ed_step (LoadSettles i r) s =
     (case take_inflight i s of Some ((_, KLoad), s') \<Rightarrow> Some (load_settle r s') | _ \<Rightarrow> None)"
| "ed_step (UploadSettles i r) s =
     (case take_inflight i s of Some ((_, KUpload), s') \<Rightarrow> Some (upload_settle r s') | _ \<Rightarrow> None)"
| "ed_step (SubmitSettles i r) s =
     (case take_inflight i s of
        Some ((_, KSubmit e p), s') \<Rightarrow> Some (submit_settle e p r s') | _ \<Rightarrow> None)"

fun ed_run :: "ed_event list \<Rightarrow> editor \<Rightarrow> editor option" where
  "ed_run [] s = Some s"
| "ed_run (e # es) s = (case ed_step e s of None \<Rightarrow> None | Some s' \<Rightarrow> ed_run es s')"

inductive ed_reach :: "editor \<Rightarrow> bool" where
  mount: "ed_reach (add_post_mount i)"
| step: "ed_reach s \<Longrightarrow> ed_step e s = Some s' \<Longrightarrow> ed_reach s'"

text \<open>The draft: the four form cells the user edits.\<close>

definition ed_draft :: "editor \<Rightarrow> string \<times> string \<times> string \<times> string" where
  "ed_draft s = (ed_title s, ed_text s, stringTags s, ed_imageUrl s)"


text \<open>A continuation agrees with the request it awaits.\<close>

fun cont_ok :: "http_request \<Rightarrow> ed_cont \<Rightarrow> bool" where
  "cont_ok (HttpGet path) KLoad = True"
| "cont_ok (HttpPost path (FormImage f)) KUpload = (path = ''/upload'')"
| "cont_ok (HttpPatch path (Fields f)) (KSubmit True (Some x)) = (path = post_path x \<and> x \<noteq> [])"
| "cont_ok (HttpPost path (Fields f)) (KSubmit False p) = (path = ''/posts'')"
| "cont_ok _ _ = False"

definition ed_wf :: "editor \<Rightarrow> bool" where
  "ed_wf s \<longleftrightarrow> list_all (\<lambda>(req, k). cont_ok req k) (ed_inflight s)"

section \<open>Lemmas\<close>

lemmas ed_unfold = ui_event_def ed_set_def ed_issue_def ed_alert_def take_inflight_def

text \<open>
  The equations for settlements unfold into a case distinction on the in-flight entry;
  proofs use the elimination rules below instead, and evaluation names them.
\<close>

lemmas ed_step_settle_simps = ed_step.simps(9-11)

declare ed_step_settle_simps [simp del]

lemma ed_wf_issue [simp]:
  "ed_wf (ed_issue req k s) \<longleftrightarrow> ed_wf s \<and> cont_ok req k"
  by (simp add: ed_wf_def ed_issue_def)

lemma ed_wf_set [simp]:
  "(\<And>s. ed_inflight (f s) = ed_inflight s) \<Longrightarrow> ed_wf (ed_set f s) = ed_wf s"
  by (simp add: ed_wf_def ed_set_def)

lemma ed_wf_frame [simp]:
  "ed_wf (s\<lparr>ed_param := p\<rparr>) = ed_wf s" "ed_wf (s\<lparr>ed_mounted := b\<rparr>) = ed_wf s"
  "ed_wf (s\<lparr>isLoading := b\<rparr>) = ed_wf s"
  by (simp_all add: ed_wf_def)

lemma ed_wf_alert [simp]: "ed_wf (ed_alert m s) = ed_wf s"
  by (simp add: ed_wf_def ed_alert_def)

lemma ed_wf_load_effect [simp]: "ed_wf (load_effect s) = ed_wf s"
  by (simp add: load_effect_def)

lemma cont_ok_submit: "cont_ok (submit_request s) (KSubmit (is_editing s) (ed_param s))"
  by (auto simp: submit_request_def is_editing_def js_truthy_def js_template_def
           split: option.splits)

lemma ed_wf_take:
  "take_inflight i s = Some (x, s') \<Longrightarrow> ed_wf s \<Longrightarrow> ed_wf s' \<and> cont_ok (fst x) (snd x)"
  by (auto simp: take_inflight_def ed_wf_def list_all_iff dest!: set_remove_nth [THEN subsetD]
           split: if_splits)

lemma ed_wf_settle:
  "ed_wf s \<Longrightarrow> ed_wf (load_settle r s) \<and> ed_wf (upload_settle r' s) \<and> ed_wf (submit_settle e p r s)"
  by (cases r; cases r') (simp_all add: load_then_def ed_wf_def ed_set_def ed_alert_def)

text \<open>Which continuation a settlement ran: elimination rules for the three settle events.\<close>

lemma ed_step_LoadSettlesE:
  assumes "ed_step (LoadSettles i r) s = Some s'"
  obtains req t where "take_inflight i s = Some ((req, KLoad), t)" and "s' = load_settle r t"
  using assms by (auto simp: ed_step_settle_simps split: option.splits prod.splits ed_cont.splits)

lemma ed_step_UploadSettlesE:
  assumes "ed_step (UploadSettles i r) s = Some s'"
  obtains req t where "take_inflight i s = Some ((req, KUpload), t)" and "s' = upload_settle r t"
  using assms by (auto simp: ed_step_settle_simps split: option.splits prod.splits ed_cont.splits)

lemma ed_step_SubmitSettlesE:
  assumes "ed_step (SubmitSettles i r) s = Some s'"
  obtains req e p t where "take_inflight i s = Some ((req, KSubmit e p), t)"
    and "s' = submit_settle e p r t"
  using assms by (auto simp: ed_step_settle_simps split: option.splits prod.splits ed_cont.splits)

lemma take_inflight_fields:
  "take_inflight i s = Some (x, t) \<Longrightarrow>
   ed_draft t = ed_draft s \<and> ed_mounted t = ed_mounted s \<and> isLoading t = isLoading s \<and>
   ed_param t = ed_param s \<and> ed_alerts t = ed_alerts s \<and> ed_navigations t = ed_navigations s \<and>
   ed_inflight t = remove_nth i (ed_inflight s) \<and> i < length (ed_inflight s) \<and>
   x = ed_inflight s ! i"
  by (auto simp: take_inflight_def ed_draft_def split: if_splits)

lemma ed_step_settle_wf:
  assumes "ed_wf s"
  shows "ed_step (LoadSettles i r) s = Some s' \<Longrightarrow> ed_wf s'"
    and "ed_step (UploadSettles i r') s = Some s' \<Longrightarrow> ed_wf s'"
    and "ed_step (SubmitSettles i r) s = Some s' \<Longrightarrow> ed_wf s'"
    apply (erule ed_step_LoadSettlesE; simp add: ed_wf_settle ed_wf_take [OF _ assms])
   apply (erule ed_step_UploadSettlesE; simp add: ed_wf_settle ed_wf_take [OF _ assms])
  apply (erule ed_step_SubmitSettlesE; simp add: ed_wf_settle ed_wf_take [OF _ assms])
  done

lemma ed_step_wf:
  assumes step: "ed_step e s = Some s'" and wf: "ed_wf s"
  shows "ed_wf s'"
proof (cases e)
  case (LoadSettles i r)
  from step have "ed_step (LoadSettles i r) s = Some s'" by (simp only: LoadSettles)
  then show ?thesis by (rule ed_step_settle_wf(1) [OF wf])
next
  case (UploadSettles i r)
  from step have "ed_step (UploadSettles i r) s = Some s'" by (simp only: UploadSettles)
  then show ?thesis by (rule ed_step_settle_wf(2) [OF wf])
next
  case (SubmitSettles i r)
  from step have "ed_step (SubmitSettles i r) s = Some s'" by (simp only: SubmitSettles)
  then show ?thesis by (rule ed_step_settle_wf(3) [OF wf])
qed (use step wf in \<open>auto simp: ui_event_def handleChangeFile_def onClickRemoveImage_def
       onSubmit_def param_change_def cont_ok_submit split: if_splits\<close>)

lemma ed_wf_mount: "ed_wf (add_post_mount i)"
  unfolding add_post_mount_def ed_wf_load_effect by (simp add: ed_wf_def)

theorem ed_reach_wf: "ed_reach s \<Longrightarrow> ed_wf s"
  by (induction rule: ed_reach.induct) (auto intro: ed_wf_mount ed_step_wf)

lemma ed_run_reach: "ed_run es s = Some s' \<Longrightarrow> ed_reach s \<Longrightarrow> ed_reach s'"
proof (induction es arbitrary: s)
  case Nil
  then show ?case by simp
next
  case (Cons e es)
  then show ?case by (auto split: option.splits intro: ed_reach.step)
qed

lemma ed_alert_draft [simp]:
  "ed_draft (ed_alert m s) = ed_draft s" "ed_navigations (ed_alert m s) = ed_navigations s"
  "ed_inflight (ed_alert m s) = ed_inflight s" "ed_alerts (ed_alert m s) = ed_alerts s @ [m]"
  "isLoading (ed_alert m s) = isLoading s" "ed_mounted (ed_alert m s) = ed_mounted s"
  by (simp_all add: ed_alert_def ed_draft_def)

lemma onSubmit_effect [simp]:
  "ed_inflight (onSubmit s) = ed_inflight s @ [(submit_request s, KSubmit (is_editing s) (ed_param s))]"
  "submit_fields (onSubmit s) = submit_fields s" "ed_param (onSubmit s) = ed_param s"
  "ed_mounted (onSubmit s) = ed_mounted s" "is_editing (onSubmit s) = is_editing s"
  "submit_request (onSubmit s) = submit_request s" "ed_draft (onSubmit s) = ed_draft s"
  by (simp_all add: onSubmit_def ed_issue_def ed_set_def submit_fields_def is_editing_def
        submit_request_def ed_draft_def)

lemma load_settle_frame [simp]:
  "isLoading (load_settle r t) = isLoading t \<and> ed_param (load_settle r t) = ed_param t \<and>
   ed_mounted (load_settle r t) = ed_mounted t"
  by (cases r) (simp_all add: load_then_def ed_set_def ed_alert_def)

lemma upload_settle_frame [simp]:
  "isLoading (upload_settle r t) = isLoading t \<and> ed_param (upload_settle r t) = ed_param t \<and>
   ed_mounted (upload_settle r t) = ed_mounted t"
  by (cases r) (simp_all add: ed_set_def ed_alert_def)

lemma submit_settle_frame [simp]:
  "isLoading (submit_settle e p r t) = isLoading t \<and> ed_param (submit_settle e p r t) = ed_param t \<and>
   ed_mounted (submit_settle e p r t) = ed_mounted t \<and> ed_draft (submit_settle e p r t) = ed_draft t"
  by (cases r) (simp_all add: ed_draft_def ed_alert_def)

lemma ed_step_keeps_unmounted: "ed_step e s = Some s' \<Longrightarrow> \<not> ed_mounted s \<Longrightarrow> \<not> ed_mounted s'"
  by (cases e)
     (auto elim!: ed_step_LoadSettlesE ed_step_UploadSettlesE ed_step_SubmitSettlesE
           dest!: take_inflight_fields simp: ui_event_def split: if_splits)

lemma derive_tags_join:
  "ts \<noteq> [] \<Longrightarrow> \<forall>t\<in>set ts. CHR '','' \<notin> set t \<Longrightarrow>
   derive_tags (js_join CHR '','' ts) = map js_strip_ws ts"
  by (auto simp: derive_tags_def js_strip_ws_join set_js_strip_ws intro!: js_split_join)

lemma submit_fields_load [simp]:
  "ed_mounted s \<Longrightarrow> submit_fields (load_then p s) =
     \<lparr>fld_title = post_title p, fld_imageUrl = post_imageUrl p,
      fld_tags = derive_tags (js_join CHR '','' (post_tags p)), fld_text = post_text p\<rparr>"
  by (simp add: submit_fields_def load_then_def ed_set_def)

text \<open>
  A successful submit navigates to the path of the continuation that was waiting; the
  invariant says which continuation waits on which request.
\<close>

lemma submit_success_navigation:
  assumes "ed_reach s" and "i < length (ed_inflight s)" and "ed_inflight s ! i = (req, k)"
    and "ed_step (SubmitSettles i (Inr d)) s = Some s'"
  shows "\<exists>e p. k = KSubmit e p \<and> cont_ok req k \<and>
           ed_navigations s' = ed_navigations s @ [post_path (if e then js_template p else post_id d)]"
proof -
  from assms(1) have "ed_wf s" by (rule ed_reach_wf)
  with assms(2,3) have ok: "cont_ok req k"
    by (auto simp: ed_wf_def list_all_length)
  from assms(4) show ?thesis
  proof (rule ed_step_SubmitSettlesE)
    fix req' e p t assume t: "take_inflight i s = Some ((req', KSubmit e p), t)"
      and s': "s' = submit_settle e p (Inr d) t"
    from t assms(3) have "k = KSubmit e p" by (auto dest: take_inflight_fields)
    with ok t show ?thesis unfolding s' by (auto dest: take_inflight_fields)
  qed
qed

lemmas ed_eval = ed_step_settle_simps ed_unfold add_post_mount_def load_effect_def param_change_def
  onSubmit_def submit_request_def submit_fields_def is_editing_def remove_nth_def js_template_def
  handleChangeFile_def onClickRemoveImage_def load_then_def

subsection \<open>Failures keep the draft\<close>

text \<open>
  C2. A failed image upload (the \<open>catch\<close> arm of \<open>handleChangeFile\<close>) leaves the
  four draft fields as they were, raises the alert "Error loading file!" and retires the
  upload request.
\<close>

theorem upload_failure_keeps_draft:
  assumes "ed_step (UploadSettles i (Inl err)) s = Some s'"
  shows "ed_draft s' = ed_draft s \<and> ed_alerts s' = ed_alerts s @ [''Error loading file!''] \<and>
         ed_inflight s' = remove_nth i (ed_inflight s)"
  using assms by (rule ed_step_UploadSettlesE) (auto dest: take_inflight_fields)

text \<open>
  C3. A failed create or update (the \<open>catch\<close> arm of \<open>onSubmit\<close>) keeps the draft,
  does not navigate, keeps the editor mounted and raises "Error while creating article!".
\<close>

theorem submit_failure_keeps_draft:
  assumes "ed_step (SubmitSettles i (Inl err)) s = Some s'"
  shows "ed_draft s' = ed_draft s \<and> ed_navigations s' = ed_navigations s \<and>
         ed_alerts s' = ed_alerts s @ [''Error while creating article!''] \<and> ed_mounted s' = ed_mounted s"
  using assms by (rule ed_step_SubmitSettlesE) (auto dest: take_inflight_fields)

text \<open>
  C9. A successful upload on a mounted editor stores the returned \<open>url\<close> as the image
  and touches no other draft field and raises no alert.
\<close>

theorem upload_success_sets_image:
  assumes "ed_step (UploadSettles i (Inr url)) s = Some s'" and "ed_mounted s"
  shows "ed_imageUrl s' = url \<and> ed_title s' = ed_title s \<and> ed_text s' = ed_text s \<and>
         stringTags s' = stringTags s \<and> ed_alerts s' = ed_alerts s"
  using assms(1)
proof (rule ed_step_UploadSettlesE)
  fix req t assume t: "take_inflight i s = Some ((req, KUpload), t)"
    and s': "s' = upload_settle (Inr url) t"
  from t assms(2) show ?thesis
    unfolding s' by (auto dest: take_inflight_fields simp: ed_set_def ed_draft_def)
qed

subsection \<open>Navigation after a successful submit\<close>

text \<open>
  C4. In every reachable editor, when an in-flight PATCH succeeds the editor navigates to
  the very path it patched, \<open>/posts/<id>\<close> of the edited article.
\<close>

theorem edit_success_navigates_to_patched:
  assumes "ed_reach s" and "i < length (ed_inflight s)"
    and "ed_inflight s ! i = (HttpPatch path pl, k)"
    and "ed_step (SubmitSettles i (Inr d)) s = Some s'"
  shows "ed_navigations s' = ed_navigations s @ [path]"
proof -
  from submit_success_navigation [OF assms] obtain e p
    where k: "k = KSubmit e p" and ok: "cont_ok (HttpPatch path pl) k"
      and nav: "ed_navigations s' = ed_navigations s @ [post_path (if e then js_template p else post_id d)]"
    by blast
  from ok k obtain x where "e" "p = Some x" "path = post_path x"
    by (cases pl; cases p; cases e) auto
  with nav show ?thesis by (simp add: js_template_def)
qed

text \<open>
  C10. In every reachable editor, when an in-flight create (\<open>POST /posts\<close>) succeeds
  the editor navigates to \<open>/posts/<_id>\<close> with the identifier the server assigned.
\<close>

theorem create_success_navigates_to_server_id:
  assumes "ed_reach s" and "i < length (ed_inflight s)"
    and "ed_inflight s ! i = (HttpPost ''/posts'' pl, k)"
    and "ed_step (SubmitSettles i (Inr d)) s = Some s'"
  shows "ed_navigations s' = ed_navigations s @ [post_path (post_id d)]"
proof -
  from submit_success_navigation [OF assms] obtain e p
    where k: "k = KSubmit e p" and ok: "cont_ok (HttpPost ''/posts'' pl) k"
      and nav: "ed_navigations s' = ed_navigations s @ [post_path (if e then js_template p else post_id d)]"
    by blast
  from ok k have "\<not> e" by (cases pl; cases p; cases e) auto
  with nav show ?thesis by simp
qed

subsection \<open>The loading flag\<close>

text \<open>
  C8. \<open>isLoading\<close> is set by a submit on a mounted editor and by nothing else, and no
  event ever clears it: after the first submit it stays true, also after a failed one.
\<close>

theorem ed_step_isLoading:
  assumes "ed_step e s = Some s'"
  shows "isLoading s' \<longleftrightarrow> isLoading s \<or> (e = Submit \<and> ed_mounted s)"
proof (cases e)
  case (LoadSettles i r)
  with assms show ?thesis by (auto elim!: ed_step_LoadSettlesE dest!: take_inflight_fields)
next
  case (UploadSettles i r)
  with assms show ?thesis by (auto elim!: ed_step_UploadSettlesE dest!: take_inflight_fields)
next
  case (SubmitSettles i r)
  with assms show ?thesis by (auto elim!: ed_step_SubmitSettlesE dest!: take_inflight_fields)
qed (use assms in \<open>auto simp: ui_event_def ed_set_def handleChangeFile_def ed_issue_def
        onClickRemoveImage_def onSubmit_def param_change_def load_effect_def split: if_splits\<close>)

subsection \<open>Tags\<close>

text \<open>
  C1. Tag round trip: loading a post into a mounted editor and submitting it unchanged
  sends the post's tags with their whitespace removed, provided there is at least one
  tag and no tag holds a comma.  Tags without whitespace come back verbatim.
\<close>

theorem tags_roundtrip:
  assumes "ed_mounted s" and "post_tags p \<noteq> []" and "\<forall>t\<in>set (post_tags p). CHR '','' \<notin> set t"
  shows "fld_tags (submit_fields (load_settle (Inr p) s)) = map js_strip_ws (post_tags p)"
  using assms by (simp add: derive_tags_join)

text \<open>
  C7. A post with no tags does not round-trip: \<open>[].join(",")\<close> is the empty string and
  \<open>"".split(",")\<close> is \<open>[""]\<close>, so the editor submits one empty tag.
\<close>

theorem tags_empty_not_roundtrip:
  assumes "ed_mounted s" and "post_tags p = []"
  shows "fld_tags (submit_fields (load_settle (Inr p) s)) = [[]]"
  using assms by (simp add: derive_tags_def)

subsection \<open>Interleavings the code does not guard against\<close>

text \<open>
  C5. A GET that settles after the route parameter changed is applied: the editor of
  post \<open>b\<close> is filled with post \<open>a\<close>'s fields, and the next Save patches \<open>b\<close> with
  them.  Nothing in \<open>AddPost\<close> compares the settled request with the current \<open>id\<close>.
\<close>

theorem stale_load_patches_other_post:
  assumes "a \<noteq> []" and "b \<noteq> []" and "a \<noteq> b"
  shows "\<exists>s. ed_run [ParamChange (Some b), LoadSettles 0 (Inr pa), Submit] (add_post_mount (Some a)) = Some s \<and>
     ed_inflight s =
       [(HttpGet (post_path b), KLoad),
        (HttpPatch (post_path b)
           (Fields \<lparr>fld_title = post_title pa, fld_imageUrl = post_imageUrl pa,
                    fld_tags = derive_tags (js_join CHR '','' (post_tags pa)),
                    fld_text = post_text pa\<rparr>), KSubmit True (Some b))]"
  using assms
  by (simp add: ui_event_def param_change_def load_effect_def ed_issue_def add_post_mount_def
        ed_step_settle_simps take_inflight_def remove_nth_def load_then_def ed_set_def
        js_template_def submit_request_def submit_fields_def is_editing_def)

text \<open>
  C6. \<open>isLoading\<close> does not disable the button: two clicks on Create issue two
  \<open>POST /posts\<close> requests with the same fields, and two articles are created.
\<close>

theorem submit_not_guarded:
  assumes "ed_mounted s" and "\<not> is_editing s"
  shows "\<exists>s'. ed_run [Submit, Submit] s = Some s' \<and>
     ed_inflight s' = ed_inflight s @
       [(HttpPost ''/posts'' (Fields (submit_fields s)), KSubmit False (ed_param s)),
        (HttpPost ''/posts'' (Fields (submit_fields s)), KSubmit False (ed_param s))]"
  using assms by (simp add: ui_event_def submit_request_def)

subsection \<open>Shape of submitted requests\<close>

text \<open>
  C25. Every derived tag is free of commas and whitespace, and there is exactly one more
  tag than there are commas in the stripped input (so \<open>""\<close> gives one empty tag).
\<close>

theorem derive_tags_shape:
  "(\<forall>t\<in>set (derive_tags st). CHR '','' \<notin> set t \<and> (\<forall>c\<in>set t. \<not> js_is_space c)) \<and>
   length (derive_tags st) = Suc (count_list (js_strip_ws st) CHR '','')"
proof -
  have "\<forall>t\<in>set (derive_tags st). CHR '','' \<notin> set t \<and> set t \<subseteq> set (js_strip_ws st)"
    using js_split_pieces by (simp add: derive_tags_def)
  then have "\<forall>t\<in>set (derive_tags st). CHR '','' \<notin> set t \<and> (\<forall>c\<in>set t. \<not> js_is_space c)"
    by (auto simp: set_js_strip_ws)
  moreover have "length (derive_tags st) = Suc (count_list (js_strip_ws st) CHR '','')"
    by (simp add: derive_tags_def length_js_split)
  ultimately show ?thesis by blast
qed

text \<open>
  C26. Submitting while an upload is in flight sends the old image: the image attachment
  runs concurrently with the rest of the form, and \<open>onSubmit\<close> reads \<open>imageUrl\<close>
  when it is clicked.  From a mounted editor with nothing in flight, choosing a file and
  submitting before the upload answers sends the fields with the previous image URL; the
  upload's success then sets the new URL in a draft that has already been sent.
\<close>

theorem submit_during_upload_sends_old_image:
  assumes "ed_mounted s" and "ed_inflight s = []"
  shows "\<exists>s'. ed_run [ChangeFile file, Submit, UploadSettles 0 (Inr url)] s = Some s' \<and>
     ed_inflight s' = [(submit_request s, KSubmit (is_editing s) (ed_param s))] \<and>
     fld_imageUrl (submit_fields s) = ed_imageUrl s \<and> ed_imageUrl s' = url"
  using assms
  by (simp add: ed_eval handleChangeFile_def onSubmit_def submit_request_def submit_fields_def
      is_editing_def remove_nth_def)

subsection \<open>Witnesses\<close>

theorem stale_load_patches_other_post_witness:
  "\<exists>s. ed_run [ParamChange (Some ''b''), LoadSettles 0 (Inr \<lparr>post_id = ''a'', post_title = ''A'',
       post_text = ''t'', post_tags = [''x''], post_imageUrl = [], post_user = ''u'',
       post_createdAt = [], post_viewsCount = 0\<rparr>), Submit] (add_post_mount (Some ''a'')) = Some s \<and>
     ed_inflight s =
       [(HttpGet (post_path ''b''), KLoad),
        (HttpPatch (post_path ''b'')
           (Fields \<lparr>fld_title = ''A'', fld_imageUrl = [],
                    fld_tags = derive_tags (js_join CHR '','' [''x'']),
                    fld_text = ''t''\<rparr>), KSubmit True (Some ''b''))]"
  using stale_load_patches_other_post [of "''a''" "''b''" "\<lparr>post_id = ''a'', post_title = ''A'',
       post_text = ''t'', post_tags = [''x''], post_imageUrl = [], post_user = ''u'',
       post_createdAt = [], post_viewsCount = 0\<rparr>"] by simp

theorem submit_not_guarded_witness:
  "\<exists>s'. ed_run [Submit, Submit] (add_post_mount None) = Some s' \<and>
     ed_inflight s' = ed_inflight (add_post_mount None) @
       [(HttpPost ''/posts'' (Fields (submit_fields (add_post_mount None))), KSubmit False None),
        (HttpPost ''/posts'' (Fields (submit_fields (add_post_mount None))), KSubmit False None)]"
proof -
  have m: "ed_mounted (add_post_mount None)" and e: "\<not> is_editing (add_post_mount None)"
    by (simp_all add: ed_eval)
  have p: "ed_param (add_post_mount None) = None" by (simp add: ed_eval)
  from submit_not_guarded [OF m e] show ?thesis by (simp only: p)
qed

theorem edit_success_navigates_to_patched_witness:
  "let s = the (ed_run [Submit] (add_post_mount (Some ''a'')));
       d = \<lparr>post_id = ''a'', post_title = [], post_text = [], post_tags = [], post_imageUrl = [],
            post_user = ''u'', post_createdAt = [], post_viewsCount = 0\<rparr>;
       s' = the (ed_step (SubmitSettles 1 (Inr d)) s)
   in ed_reach s \<and> 1 < length (ed_inflight s) \<and>
      ed_inflight s ! 1 = (HttpPatch (post_path ''a'')
        (Fields \<lparr>fld_title = [], fld_imageUrl = [], fld_tags = [[]], fld_text = []\<rparr>),
         KSubmit True (Some ''a'')) \<and>
      ed_step (SubmitSettles 1 (Inr d)) s = Some s' \<and>
      ed_navigations s' = ed_navigations s @ [post_path ''a'']"
proof -
  define s where "s = the (ed_run [Submit] (add_post_mount (Some ''a'')))"
  define d where "d = \<lparr>post_id = ''a'', post_title = [], post_text = [], post_tags = [],
     post_imageUrl = [], post_user = ''u'', post_createdAt = [], post_viewsCount = (0::nat)\<rparr>"
  define s' where "s' = the (ed_step (SubmitSettles 1 (Inr d)) s)"
  have run: "ed_run [Submit] (add_post_mount (Some ''a'')) = Some s"
    by (simp add: s_def ed_eval)
  have r: "ed_reach s" by (rule ed_run_reach [OF run ed_reach.mount])
  have l: "1 < length (ed_inflight s)" by (simp add: s_def ed_eval)
  have n: "ed_inflight s ! 1 = (HttpPatch (post_path ''a'')
        (Fields \<lparr>fld_title = [], fld_imageUrl = [], fld_tags = [[]], fld_text = []\<rparr>),
         KSubmit True (Some ''a''))"
    by (simp add: s_def ed_eval derive_tags_def)
  have st: "ed_step (SubmitSettles 1 (Inr d)) s = Some s'"
    by (simp add: s'_def s_def ed_eval)
  have "ed_navigations s' = ed_navigations s @ [post_path ''a'']"
    by (rule edit_success_navigates_to_patched [OF r l n st])
  with r l n st show ?thesis
    unfolding Let_def by (fold d_def s_def s'_def) blast
qed


theorem upload_failure_keeps_draft_witness:
  "\<exists>s s'. ed_run [ChangeTitle ''Hello'', ChangeFile ''a.png'', UploadSettles 0 (Inr ''foo.png''),
                   ChangeFile ''b.png''] (add_post_mount None) = Some s \<and>
     ed_step (UploadSettles 0 (Inl NetworkError)) s = Some s' \<and>
     ed_draft s' = (''Hello'', [], [], ''foo.png'') \<and> ed_alerts s' = [''Error loading file!''] \<and>
     ed_inflight s' = []"
proof -
  define s where "s = the (ed_run [ChangeTitle ''Hello'', ChangeFile ''a.png'',
    UploadSettles 0 (Inr ''foo.png''), ChangeFile ''b.png''] (add_post_mount None))"
  have run: "ed_run [ChangeTitle ''Hello'', ChangeFile ''a.png'', UploadSettles 0 (Inr ''foo.png''),
                   ChangeFile ''b.png''] (add_post_mount None) = Some s"
    by (simp add: s_def ed_eval)
  have "\<exists>s'. ed_step (UploadSettles 0 (Inl NetworkError)) s = Some s'"
    by (simp add: s_def ed_eval)
  then obtain s' where st: "ed_step (UploadSettles 0 (Inl NetworkError)) s = Some s'" by blast
  have pre: "ed_draft s = (''Hello'', [], [], ''foo.png'')" "ed_alerts s = []"
    "ed_inflight s = [(HttpPost ''/upload'' (FormImage ''b.png''), KUpload)]"
    by (simp_all add: s_def ed_eval ed_draft_def)
  from upload_failure_keeps_draft [OF st] pre run st show ?thesis
    by (auto simp: remove_nth_def)
qed

theorem submit_failure_keeps_draft_witness:
  "\<exists>s s'. ed_run [ChangeTitle ''Hello'', ChangeText ''World'', Submit] (add_post_mount None) = Some s \<and>
     ed_step (SubmitSettles 0 (Inl (HttpStatus 500))) s = Some s' \<and>
     ed_draft s' = (''Hello'', ''World'', [], []) \<and> ed_navigations s' = [] \<and>
     ed_alerts s' = [''Error while creating article!''] \<and> ed_mounted s'"
proof -
  define s where "s = the (ed_run [ChangeTitle ''Hello'', ChangeText ''World'', Submit] (add_post_mount None))"
  have run: "ed_run [ChangeTitle ''Hello'', ChangeText ''World'', Submit] (add_post_mount None) = Some s"
    by (simp add: s_def ed_eval)
  have "\<exists>s'. ed_step (SubmitSettles 0 (Inl (HttpStatus 500))) s = Some s'"
    by (simp add: s_def ed_eval)
  then obtain s' where st: "ed_step (SubmitSettles 0 (Inl (HttpStatus 500))) s = Some s'" by blast
  have pre: "ed_draft s = (''Hello'', ''World'', [], [])" "ed_alerts s = []" "ed_navigations s = []"
    "ed_mounted s"
    by (simp_all add: s_def ed_eval ed_draft_def)
  from submit_failure_keeps_draft [OF st] pre run st show ?thesis by auto
qed

theorem upload_success_sets_image_witness:
  "\<exists>s s'. ed_run [ChangeTitle ''T'', ChangeFile ''a.png''] (add_post_mount None) = Some s \<and>
     ed_mounted s \<and> ed_step (UploadSettles 0 (Inr ''/uploads/a.png'')) s = Some s' \<and>
     ed_imageUrl s' = ''/uploads/a.png'' \<and> ed_title s' = ''T'' \<and> ed_alerts s' = []"
proof -
  define s where "s = the (ed_run [ChangeTitle ''T'', ChangeFile ''a.png''] (add_post_mount None))"
  have run: "ed_run [ChangeTitle ''T'', ChangeFile ''a.png''] (add_post_mount None) = Some s"
    by (simp add: s_def ed_eval)
  have m: "ed_mounted s" and pre: "ed_title s = ''T''" "ed_alerts s = []"
    by (simp_all add: s_def ed_eval)
  have "\<exists>s'. ed_step (UploadSettles 0 (Inr ''/uploads/a.png'')) s = Some s'"
    by (simp add: s_def ed_eval)
  then obtain s' where st: "ed_step (UploadSettles 0 (Inr ''/uploads/a.png'')) s = Some s'" by blast
  from upload_success_sets_image [OF st m] pre run m st show ?thesis by auto
qed

theorem create_success_navigates_to_server_id_witness:
  "\<exists>s s'. ed_run [ChangeTitle ''Hello'', Submit] (add_post_mount None) = Some s \<and> ed_reach s \<and>
     0 < length (ed_inflight s) \<and>
     ed_inflight s ! 0 = (HttpPost ''/posts'' (Fields \<lparr>fld_title = ''Hello'', fld_imageUrl = [],
        fld_tags = [[]], fld_text = []\<rparr>), KSubmit False None) \<and>
     ed_step (SubmitSettles 0 (Inr \<lparr>post_id = ''42'', post_title = ''Hello'', post_text = [],
        post_tags = [], post_imageUrl = [], post_user = ''u'', post_createdAt = [],
        post_viewsCount = 0\<rparr>)) s = Some s' \<and>
     ed_navigations s' = [''/posts/42'']"
proof -
  define d where "d = \<lparr>post_id = ''42'', post_title = ''Hello'', post_text = [],
        post_tags = [], post_imageUrl = [], post_user = ''u'', post_createdAt = [],
        post_viewsCount = (0::nat)\<rparr>"
  define s where "s = the (ed_run [ChangeTitle ''Hello'', Submit] (add_post_mount None))"
  have run: "ed_run [ChangeTitle ''Hello'', Submit] (add_post_mount None) = Some s"
    by (simp add: s_def ed_eval)
  have r: "ed_reach s" by (rule ed_run_reach [OF run ed_reach.mount])
  have l: "0 < length (ed_inflight s)" by (simp add: s_def ed_eval)
  have n: "ed_inflight s ! 0 = (HttpPost ''/posts'' (Fields \<lparr>fld_title = ''Hello'', fld_imageUrl = [],
        fld_tags = [[]], fld_text = []\<rparr>), KSubmit False None)"
    by (simp add: s_def ed_eval derive_tags_def)
  have "\<exists>s'. ed_step (SubmitSettles 0 (Inr d)) s = Some s'"
    by (simp add: s_def ed_eval)
  then obtain s' where st: "ed_step (SubmitSettles 0 (Inr d)) s = Some s'" by blast
  have nav0: "ed_navigations s = []" by (simp add: s_def ed_eval)
  from create_success_navigates_to_server_id [OF r l n st] nav0
  have "ed_navigations s' = [''/posts/42'']" by (simp add: d_def post_path_def)
  with run r l n st show ?thesis unfolding d_def by blast
qed

theorem ed_step_isLoading_witness:
  "\<exists>s s'. ed_run [Submit] (add_post_mount None) = Some s \<and>
     ed_step (SubmitSettles 0 (Inl NetworkError)) s = Some s' \<and> isLoading s \<and> isLoading s'"
proof -
  define s where "s = the (ed_run [Submit] (add_post_mount None))"
  have run: "ed_run [Submit] (add_post_mount None) = Some s" by (simp add: s_def ed_eval)
  have l: "isLoading s" by (simp add: s_def ed_eval)
  have "\<exists>s'. ed_step (SubmitSettles 0 (Inl NetworkError)) s = Some s'"
    by (simp add: s_def ed_eval)
  then obtain s' where st: "ed_step (SubmitSettles 0 (Inl NetworkError)) s = Some s'" by blast
  from ed_step_isLoading [OF st] l run st show ?thesis by blast
qed

theorem tags_roundtrip_witness:
  "ed_mounted (add_post_mount (Some ''1'')) \<and>
   fld_tags (submit_fields (load_settle (Inr \<lparr>post_id = ''1'', post_title = ''T'', post_text = ''B'',
     post_tags = [''x'', '' y''], post_imageUrl = [], post_user = ''u'', post_createdAt = [],
     post_viewsCount = 0\<rparr>) (add_post_mount (Some ''1'')))) = [''x'', ''y'']"
  using tags_roundtrip [of "add_post_mount (Some ''1'')" "\<lparr>post_id = ''1'', post_title = ''T'',
     post_text = ''B'', post_tags = [''x'', '' y''], post_imageUrl = [], post_user = ''u'',
     post_createdAt = [], post_viewsCount = 0\<rparr>"]
  by (simp add: ed_eval js_strip_ws_def js_is_space_def js_ws_codes_def)

theorem tags_empty_not_roundtrip_witness:
  "fld_tags (submit_fields (load_settle (Inr \<lparr>post_id = ''1'', post_title = ''T'', post_text = ''B'',
     post_tags = [], post_imageUrl = [], post_user = ''u'', post_createdAt = [],
     post_viewsCount = 0\<rparr>) (add_post_mount (Some ''1'')))) = [[]]"
  using tags_empty_not_roundtrip [of "add_post_mount (Some ''1'')" "\<lparr>post_id = ''1'', post_title = ''T'',
     post_text = ''B'', post_tags = [], post_imageUrl = [], post_user = ''u'',
     post_createdAt = [], post_viewsCount = 0\<rparr>"]
  by (simp add: ed_eval)


theorem derive_tags_shape_witness:
  "list_all (\<lambda>t. CHR '','' \<notin> set t \<and> list_all (\<lambda>c. \<not> js_is_space c) t)
     (derive_tags ''a, b ,c'') \<and>
   length (derive_tags ''a, b ,c'') = 3 \<and> derive_tags ''a, b ,c'' = [''a'', ''b'', ''c'']"
proof -
  have t: "derive_tags ''a, b ,c'' = [''a'', ''b'', ''c'']"
    by (simp add: derive_tags_def js_split_def js_strip_ws_def js_is_space_def js_ws_codes_def)
  from derive_tags_shape [of "''a, b ,c''"] t show ?thesis by (simp add: list_all_iff)
qed

theorem submit_during_upload_sends_old_image_witness:
  "ed_mounted (add_post_mount None) \<and> ed_inflight (add_post_mount None) = [] \<and>
   (\<exists>s'. ed_run [ChangeFile ''photo.png'', Submit, UploadSettles 0 (Inr ''/uploads/photo.png'')]
          (add_post_mount None) = Some s' \<and>
     ed_inflight s' = [(HttpPost ''/posts'' (Fields \<lparr>fld_title = [], fld_imageUrl = [], fld_tags = [[]],
                                                  fld_text = []\<rparr>), KSubmit False None)] \<and>
     ed_imageUrl s' = ''/uploads/photo.png'')"
proof -
  have m: "ed_mounted (add_post_mount None)" "ed_inflight (add_post_mount None) = []"
    by (simp_all add: ed_eval)
  have r: "submit_request (add_post_mount None) =
      HttpPost ''/posts'' (Fields \<lparr>fld_title = [], fld_imageUrl = [], fld_tags = [[]], fld_text = []\<rparr>)"
    "is_editing (add_post_mount None) = False" "ed_param (add_post_mount None) = None"
    by (simp_all add: ed_eval submit_request_def submit_fields_def is_editing_def derive_tags_def js_split_def)
  from submit_during_upload_sends_old_image [OF m, of "''photo.png''" "''/uploads/photo.png''"]
  obtain s' where run: "ed_run [ChangeFile ''photo.png'', Submit, UploadSettles 0 (Inr ''/uploads/photo.png'')]
          (add_post_mount None) = Some s'"
    and inf: "ed_inflight s' = [(submit_request (add_post_mount None),
                KSubmit (is_editing (add_post_mount None)) (ed_param (add_post_mount None)))]"
    and img: "ed_imageUrl s' = ''/uploads/photo.png''" by blast
  from inf r have "ed_inflight s' = [(HttpPost ''/posts'' (Fields \<lparr>fld_title = [], fld_imageUrl = [],
      fld_tags = [[]], fld_text = []\<rparr>), KSubmit False None)]" by simp
  with m run img show ?thesis by blast
qed

end
