(* ===== verification/Post_View.thy ===== *)
theory Post_View
  imports Blog_Prelude
begin

text \<open>
  The article page \<open>FullPost\<close> (src/src/pages/FullPost.jsx), the PostViewWorkflow of
  the spec.  Its two state cells (\<open>data\<close>, initially undefined, and \<open>isLoading\<close>,
  initially true) and the route parameter are the record \<open>full_post\<close>; the GET
  requests the effect issued and that have not settled are \<open>fp_inflight\<close> (the
  \<open>.then\<close> closure captures nothing but the setters, so a request is its path).
  Rendering yields the skeleton, the article with the props \<open>FullPost\<close> passes to
  \<open>Post\<close> and the hard-coded comment list, or \<open>None\<close> where the JSX would read
  a field of \<open>undefined\<close> and throw.
\<close>

section \<open>State and handlers\<close>

record full_post =
  fp_param :: string
  fp_data :: "post option"
  fp_isLoading :: bool
  fp_mounted :: bool
  fp_inflight :: "string list"
  fp_alerts :: "string list"

definition fp_set :: "(full_post \<Rightarrow> full_post) \<Rightarrow> full_post \<Rightarrow> full_post" where
  "fp_set f s = (if fp_mounted s then f s else s)"

text \<open>The effect with dependencies \<open>[id]\<close>: \<open>axios.get(`/posts/${id}`)\<close>, unguarded.\<close>

definition fp_effect :: "full_post \<Rightarrow> full_post" where
  "fp_effect s = s\<lparr>fp_inflight := fp_inflight s @ [post_path (fp_param s)]\<rparr>"

text \<open>\<open>.then\<close>: \<open>setData(res.data); setLoading(false)\<close>; \<open>.catch\<close>: alert.\<close>

fun fp_get_settle :: "post response \<Rightarrow> full_post \<Rightarrow> full_post" where
  "fp_get_settle (Inr d) s = fp_set (\<lambda>s. s\<lparr>fp_data := Some d, fp_isLoading := False\<rparr>) s"
| "fp_get_settle (Inl err) s = s\<lparr>fp_alerts := fp_alerts s @ [''Error receiving article'']\<rparr>"

definition full_post_mount :: "string \<Rightarrow> full_post" where
  "full_post_mount i = fp_effect
     \<lparr>fp_param = i, fp_data = None, fp_isLoading = True, fp_mounted = True,
      fp_inflight = [], fp_alerts = []\<rparr>"

text \<open>A new \<open>id\<close> on the same route re-runs the effect and keeps both state cells.\<close>

definition fp_param_change :: "string \<Rightarrow> full_post \<Rightarrow> full_post" where
  "fp_param_change i s = (if i = fp_param s then s else fp_effect (s\<lparr>fp_param := i\<rparr>))"

section \<open>Rendering\<close>

text \<open>The props of \<open><Post ... isFullPost>\<close> and its child \<open><p>{data.text}</p>\<close>.\<close>

record post_props =
  pp_id :: string
  pp_title :: string
  pp_imageUrl :: string
  pp_user :: string
  pp_createdAt :: string
  pp_viewsCount :: nat
  pp_commentsCount :: nat
  pp_tags :: "string list"
  pp_text :: string

record comment =
  cm_fullName :: string
  cm_avatarUrl :: string
  cm_text :: string

definition comment_items :: "comment list" where
  "comment_items =
     [\<lparr>cm_fullName = ''John Smith'', cm_avatarUrl = ''https://mui.com/static/images/avatar/1.jpg'',
       cm_text = ''This is a test comment 555555''\<rparr>,
      \<lparr>cm_fullName = ''Alex Steven'', cm_avatarUrl = ''https://mui.com/static/images/avatar/2.jpg'',
       cm_text = ''When displaying three lines or more, the avatar is not aligned at the top. You should set the prop to align the avatar at the top''\<rparr>]"

text \<open>\<open>data.imageUrl ? `http://localhost:4444${data.imageUrl}` : ""\<close>.\<close>

definition display_image_url :: "string \<Rightarrow> string" where
  "display_image_url u = (if u \<noteq> [] then attachment_host @ u else [])"

definition post_props_of :: "post \<Rightarrow> post_props" where
  "post_props_of d =
     \<lparr>pp_id = post_id d, pp_title = post_title d, pp_imageUrl = display_image_url (post_imageUrl d),
      pp_user = post_user d, pp_createdAt = post_createdAt d, pp_viewsCount = post_viewsCount d,
      pp_commentsCount = 3, pp_tags = post_tags d, pp_text = post_text d\<rparr>"

datatype full_post_view = PostSkeleton | Article post_props "comment list"

definition render_full_post :: "full_post \<Rightarrow> full_post_view option" where
  "render_full_post s =
     (if fp_isLoading s then Some PostSkeleton
      else case fp_data s of
        None \<Rightarrow> None
      | Some d \<Rightarrow> Some (Article (post_props_of d) comment_items))"

section \<open>Events\<close>

datatype fp_event = FpParamChange string | FpUnmount | FpGetSettles nat "post response"

fun fp_step :: "fp_event \<Rightarrow> full_post \<Rightarrow> full_post option" where
  "fp_step (FpParamChange i) s = (if fp_mounted s then Some (fp_param_change i s) else None)"
| "fp_step FpUnmount s = (if fp_mounted s then Some (s\<lparr>fp_mounted := False\<rparr>) else None)"
| "fp_step (FpGetSettles n r) s =
     (if n < length (fp_inflight s)
      then Some (fp_get_settle r (s\<lparr>fp_inflight := remove_nth n (fp_inflight s)\<rparr>))
      else None)"

fun fp_run :: "fp_event list \<Rightarrow> full_post \<Rightarrow> full_post option" where
  "fp_run [] s = Some s"
| "fp_run (e # es) s = (case fp_step e s of None \<Rightarrow> None | Some s' \<Rightarrow> fp_run es s')"

text \<open>
  The server answers a GET of \<open>/posts/<i>\<close> with the post whose \<open>_id\<close> is
  \<open>i\<close> or with an error; the reachable states are those of such runs.
\<close>

definition server_answers :: "string \<Rightarrow> post response \<Rightarrow> bool" where
  "server_answers path r = (case r of Inl e \<Rightarrow> True | Inr d \<Rightarrow> path = post_path (post_id d))"

inductive fp_reach :: "full_post \<Rightarrow> bool" where
  mount: "fp_reach (full_post_mount i)"
| param: "fp_reach s \<Longrightarrow> fp_step (FpParamChange i) s = Some s' \<Longrightarrow> fp_reach s'"
| unmount: "fp_reach s \<Longrightarrow> fp_step FpUnmount s = Some s' \<Longrightarrow> fp_reach s'"
| settle: "fp_reach s \<Longrightarrow> n < length (fp_inflight s) \<Longrightarrow>
    server_answers (fp_inflight s ! n) r \<Longrightarrow> fp_step (FpGetSettles n r) s = Some s' \<Longrightarrow> fp_reach s'"

text \<open>\<open>data\<close> is defined whenever \<open>isLoading\<close> is false: both are set together.\<close>

definition fp_loaded_inv :: "full_post \<Rightarrow> bool" where
  "fp_loaded_inv s \<longleftrightarrow> fp_isLoading s \<or> fp_data s \<noteq> None"

section \<open>Lemmas\<close>

lemma fp_get_settle_unmounted:
  "\<not> fp_mounted s \<Longrightarrow> fp_data (fp_get_settle r s) = fp_data s \<and> fp_isLoading (fp_get_settle r s) = fp_isLoading s"
  by (cases r) (simp_all add: fp_set_def)

lemma fp_step_settle:
  "fp_step (FpGetSettles n r) s = Some s' \<longleftrightarrow>
   n < length (fp_inflight s) \<and> s' = fp_get_settle r (s\<lparr>fp_inflight := remove_nth n (fp_inflight s)\<rparr>)"
  by auto

declare fp_step.simps(3) [simp del]

lemma fp_get_settle_frame [simp]:
  "fp_param (fp_get_settle r s) = fp_param s \<and> fp_mounted (fp_get_settle r s) = fp_mounted s \<and>
   fp_inflight (fp_get_settle r s) = fp_inflight s"
  by (cases r) (simp_all add: fp_set_def)

lemma fp_step_new_bound:
  "fp_step e f = Some f' \<Longrightarrow> length (fp_inflight f') \<le> Suc (length (fp_inflight f))"
  by (cases e) (auto simp: fp_step_settle fp_param_change_def fp_effect_def split: if_splits)

lemma fp_param_change_requests:
  "\<exists>rs. fp_inflight (fp_param_change i f) = fp_inflight f @ rs \<and> length rs \<le> 1"
  by (auto simp: fp_param_change_def fp_effect_def)

lemma full_post_mount_requests: "fp_inflight (full_post_mount i) = [post_path i]"
  by (simp add: full_post_mount_def fp_effect_def)

lemma fp_loaded_inv_settle: "fp_loaded_inv s \<Longrightarrow> fp_loaded_inv (fp_get_settle r s)"
  by (cases r) (simp_all add: fp_loaded_inv_def fp_set_def)

lemma fp_reach_loaded_inv: "fp_reach s \<Longrightarrow> fp_loaded_inv s"
proof (induction rule: fp_reach.induct)
  case (mount i)
  then show ?case by (simp add: full_post_mount_def fp_effect_def fp_loaded_inv_def)
next
  case (param s i s')
  then show ?case
    by (auto simp: fp_param_change_def fp_effect_def fp_loaded_inv_def split: if_splits)
next
  case (unmount s s')
  then show ?case by (auto simp: fp_loaded_inv_def split: if_splits)
next
  case (settle s n r s')
  from settle.IH have "fp_loaded_inv (s\<lparr>fp_inflight := remove_nth n (fp_inflight s)\<rparr>)"
    by (simp add: fp_loaded_inv_def)
  with settle.hyps(4) show ?case by (simp add: fp_step_settle fp_loaded_inv_settle)
qed

text \<open>
  C11. Rendering never reads a field of an undefined \<open>data\<close>: in every reachable
  state \<open>FullPost\<close> renders the skeleton or an article.
\<close>

theorem fp_render_defined:
  assumes "fp_reach s"
  shows "\<exists>v. render_full_post s = Some v"
  using fp_reach_loaded_inv [OF assms]
  by (auto simp: render_full_post_def fp_loaded_inv_def split: option.splits)

text \<open>
  C12. When a GET settles successfully on a mounted page, the page renders the article:
  identifier, title, tags and text of the fetched post, and its image resolved against
  the attachment host, or the empty string for a post without an image.
\<close>

theorem fp_success_renders_post:
  assumes "fp_mounted s" and "fp_step (FpGetSettles n (Inr d)) s = Some s'"
  shows "\<exists>props. render_full_post s' = Some (Article props comment_items) \<and>
     pp_id props = post_id d \<and> pp_title props = post_title d \<and> pp_text props = post_text d \<and>
     pp_tags props = post_tags d \<and>
     pp_imageUrl props = (if post_imageUrl d = [] then [] else attachment_host @ post_imageUrl d)"
  using assms
  by (auto simp: fp_step_settle fp_set_def render_full_post_def post_props_of_def
                 display_image_url_def)

text \<open>
  C13. A failed GET changes nothing on screen and raises the alert "Error receiving
  article"; in particular a page still loading keeps showing the skeleton, and there is
  no error state and no retry.
\<close>

theorem fp_failure_keeps_view:
  assumes "fp_step (FpGetSettles n (Inl err)) s = Some s'"
  shows "render_full_post s' = render_full_post s \<and>
         fp_alerts s' = fp_alerts s @ [''Error receiving article''] \<and>
         fp_inflight s' = remove_nth n (fp_inflight s)"
  using assms by (auto simp: fp_step_settle render_full_post_def)

text \<open>
  C14. Stale data on a change of article: when the route moves from one article to
  another while the page stays mounted, the new article's request is issued but the old
  article stays on screen (\<open>isLoading\<close> is not reset and \<open>data\<close> is kept).
\<close>

theorem fp_param_change_keeps_old_article:
  assumes "fp_mounted s" and "render_full_post s = Some (Article props cs)" and "i \<noteq> fp_param s"
  shows "\<exists>s'. fp_step (FpParamChange i) s = Some s' \<and> fp_param s' = i \<and>
     fp_inflight s' = fp_inflight s @ [post_path i] \<and>
     render_full_post s' = Some (Article props cs)"
  using assms
  by (auto simp: fp_param_change_def fp_effect_def render_full_post_def split: if_splits option.splits)

text \<open>
  C15. Out-of-order completions are applied as they come: if the request for the new
  article \<open>b\<close> settles before the one for the old article \<open>a\<close>, the page ends up
  showing \<open>a\<close> while its route parameter is \<open>b\<close>.  The run is one a correct server
  produces (each GET answered with the post it names).
\<close>

theorem fp_out_of_order_shows_stale:
  assumes "a \<noteq> b" and "post_id pa = a" and "post_id pb = b"
  shows "\<exists>s. fp_run [FpParamChange b, FpGetSettles 1 (Inr pb), FpGetSettles 0 (Inr pa)]
               (full_post_mount a) = Some s \<and> fp_reach s \<and> fp_param s = b \<and>
          render_full_post s = Some (Article (post_props_of pa) comment_items)"
proof -
  let ?s0 = "full_post_mount a"
  let ?s1 = "fp_param_change b ?s0"
  let ?s2 = "fp_get_settle (Inr pb) (?s1\<lparr>fp_inflight := [post_path a]\<rparr>)"
  let ?s3 = "fp_get_settle (Inr pa) (?s2\<lparr>fp_inflight := []\<rparr>)"
  have i1: "fp_inflight ?s1 = [post_path a, post_path b]"
    using assms(1) by (simp add: fp_param_change_def full_post_mount_def fp_effect_def)
  have st1: "fp_step (FpParamChange b) ?s0 = Some ?s1" by (simp add: full_post_mount_def fp_effect_def)
  have st2: "fp_step (FpGetSettles 1 (Inr pb)) ?s1 = Some ?s2"
    using i1 by (simp add: fp_step_settle remove_nth_def)
  have i2: "fp_inflight ?s2 = [post_path a]" by (simp add: fp_set_def)
  have st3: "fp_step (FpGetSettles 0 (Inr pa)) ?s2 = Some ?s3"
    using i2 by (simp add: fp_step_settle remove_nth_def)
  have r1: "fp_reach ?s1" by (rule fp_reach.param [OF fp_reach.mount st1])
  have r2: "fp_reach ?s2"
    by (rule fp_reach.settle [OF r1 _ _ st2]) (use i1 assms(3) in \<open>simp_all add: server_answers_def\<close>)
  have r3: "fp_reach ?s3"
    by (rule fp_reach.settle [OF r2 _ _ st3]) (use i2 assms(2) in \<open>simp_all add: server_answers_def\<close>)
  have m: "fp_mounted ?s2" "fp_mounted ?s1"
    by (simp_all add: full_post_mount_def fp_effect_def fp_param_change_def fp_set_def)
  have "render_full_post ?s3 = Some (Article (post_props_of pa) comment_items)"
    using m by (simp add: fp_set_def render_full_post_def)
  moreover have "fp_param ?s3 = b"
    using assms(1) by (simp add: fp_param_change_def full_post_mount_def fp_effect_def fp_set_def)
  ultimately show ?thesis using st1 st2 st3 r3 by auto
qed

lemma fp_step_keeps_unmounted: "fp_step e s = Some s' \<Longrightarrow> \<not> fp_mounted s \<Longrightarrow> \<not> fp_mounted s'"
  by (cases e) (auto simp: fp_step_settle split: if_splits)

subsection \<open>Witnesses\<close>

theorem fp_render_defined_witness:
  "fp_reach (full_post_mount ''1'') \<and> (\<exists>v. render_full_post (full_post_mount ''1'') = Some v) \<and>
   render_full_post (full_post_mount ''1'') = Some PostSkeleton"
proof -
  have r: "fp_reach (full_post_mount ''1'')" by (rule fp_reach.mount)
  from fp_render_defined [OF r] r show ?thesis
    by (simp add: render_full_post_def full_post_mount_def fp_effect_def)
qed

theorem fp_success_renders_post_witness:
  "\<exists>s' props. fp_step (FpGetSettles 0 (Inr \<lparr>post_id = ''1'', post_title = ''Hello'', post_text = ''World'',
       post_tags = [''a''], post_imageUrl = ''/uploads/x.png'', post_user = ''u'',
       post_createdAt = ''2024'', post_viewsCount = 5\<rparr>)) (full_post_mount ''1'') = Some s' \<and>
     render_full_post s' = Some (Article props comment_items) \<and>
     pp_imageUrl props = ''http://localhost:4444/uploads/x.png'' \<and> pp_title props = ''Hello''"
proof -
  define d where "d = \<lparr>post_id = ''1'', post_title = ''Hello'', post_text = ''World'',
       post_tags = [''a''], post_imageUrl = ''/uploads/x.png'', post_user = ''u'',
       post_createdAt = ''2024'', post_viewsCount = (5::nat)\<rparr>"
  have m: "fp_mounted (full_post_mount ''1'')" by (simp add: full_post_mount_def fp_effect_def)
  have "\<exists>s'. fp_step (FpGetSettles 0 (Inr d)) (full_post_mount ''1'') = Some s'"
    by (simp add: fp_step_settle full_post_mount_def fp_effect_def)
  then obtain s' where st: "fp_step (FpGetSettles 0 (Inr d)) (full_post_mount ''1'') = Some s'" by blast
  from fp_success_renders_post [OF m st] obtain props
    where "render_full_post s' = Some (Article props comment_items)"
      and "pp_title props = post_title d"
      and "pp_imageUrl props = (if post_imageUrl d = [] then [] else attachment_host @ post_imageUrl d)"
    by blast
  with st show ?thesis unfolding d_def by (auto simp: attachment_host_def)
qed

theorem fp_failure_keeps_view_witness:
  "\<exists>s'. fp_step (FpGetSettles 0 (Inl NetworkError)) (full_post_mount ''1'') = Some s' \<and>
     render_full_post s' = Some PostSkeleton \<and> fp_alerts s' = [''Error receiving article''] \<and>
     fp_inflight s' = []"
proof -
  have "\<exists>s'. fp_step (FpGetSettles 0 (Inl NetworkError)) (full_post_mount ''1'') = Some s'"
    by (simp add: fp_step_settle full_post_mount_def fp_effect_def)
  then obtain s' where st: "fp_step (FpGetSettles 0 (Inl NetworkError)) (full_post_mount ''1'') = Some s'"
    by blast
  from fp_failure_keeps_view [OF st] st show ?thesis
    by (simp add: render_full_post_def full_post_mount_def fp_effect_def remove_nth_def)
qed

theorem fp_param_change_keeps_old_article_witness:
  "\<exists>s props cs s'. fp_run [FpGetSettles 0 (Inr \<lparr>post_id = ''1'', post_title = ''One'', post_text = [],
       post_tags = [], post_imageUrl = [], post_user = ''u'', post_createdAt = [],
       post_viewsCount = 0\<rparr>)] (full_post_mount ''1'') = Some s \<and>
     fp_mounted s \<and> render_full_post s = Some (Article props cs) \<and> pp_title props = ''One'' \<and>
     fp_step (FpParamChange ''2'') s = Some s' \<and> fp_param s' = ''2'' \<and>
     render_full_post s' = Some (Article props cs)"
proof -
  define d where "d = \<lparr>post_id = ''1'', post_title = ''One'', post_text = [],
       post_tags = [], post_imageUrl = [], post_user = ''u'', post_createdAt = [],
       post_viewsCount = (0::nat)\<rparr>"
  define s where "s = the (fp_run [FpGetSettles 0 (Inr d)] (full_post_mount ''1''))"
  have run: "fp_run [FpGetSettles 0 (Inr d)] (full_post_mount ''1'') = Some s"
    by (simp add: s_def fp_step.simps full_post_mount_def fp_effect_def)
  have m: "fp_mounted s" and ne: "''2'' \<noteq> fp_param s"
    and rd: "render_full_post s = Some (Article (post_props_of d) comment_items)"
    by (simp_all add: s_def fp_step.simps full_post_mount_def fp_effect_def fp_set_def
                      render_full_post_def)
  from fp_param_change_keeps_old_article [OF m rd ne] obtain s'
    where "fp_step (FpParamChange ''2'') s = Some s'" "fp_param s' = ''2''"
      "render_full_post s' = Some (Article (post_props_of d) comment_items)"
    by blast
  with run m rd show ?thesis unfolding d_def by (auto simp: post_props_of_def)
qed

theorem fp_out_of_order_shows_stale_witness:
  "\<exists>s. fp_run [FpParamChange ''2'',
        FpGetSettles 1 (Inr \<lparr>post_id = ''2'', post_title = ''Two'', post_text = [], post_tags = [],
          post_imageUrl = [], post_user = ''u'', post_createdAt = [], post_viewsCount = 0\<rparr>),
        FpGetSettles 0 (Inr \<lparr>post_id = ''1'', post_title = ''One'', post_text = [], post_tags = [],
          post_imageUrl = [], post_user = ''u'', post_createdAt = [], post_viewsCount = 0\<rparr>)]
       (full_post_mount ''1'') = Some s \<and> fp_reach s \<and> fp_param s = ''2'' \<and>
     render_full_post s = Some (Article (post_props_of \<lparr>post_id = ''1'', post_title = ''One'',
        post_text = [], post_tags = [], post_imageUrl = [], post_user = ''u'', post_createdAt = [],
        post_viewsCount = 0\<rparr>) comment_items)"
  by (rule fp_out_of_order_shows_stale) simp_all


end
