(* ===== verification/Routes.thy ===== *)
theory Routes
  imports Blog_Prelude
begin

text \<open>
  The route table of \<open>App\<close> (src/src/App.js, lines 22-29) and how
  \<open><Routes>\<close> matches a location against it.  React Router compiles a pattern such as
  \<open>/posts/:id/edit\<close> to the regular expression \<open>^\/posts\/([^\/]+)\/edit\/*$\<close> with
  the case-insensitive flag; on paths this is: the path starts with \<open>/\<close>, its
  \<open>/\<close>-separated segments after any trailing slashes are dropped match the pattern's
  segments one by one, a literal segment up to ASCII case and \<open>:id\<close> any non-empty
  segment.  Percent-decoding of the captured parameter is not modelled (identifiers are
  taken as they appear in the path).
\<close>

datatype seg = Lit string | Param

datatype route_id = RHome | RPost | REdit | RAdd | RLogin | RRegister

definition route_table :: "(seg list \<times> route_id) list" where
  "route_table =
     [([], RHome),
      ([Lit ''posts'', Param], RPost),
      ([Lit ''posts'', Param, Lit ''edit''], REdit),
      ([Lit ''add-post''], RAdd),
      ([Lit ''login''], RLogin),
      ([Lit ''register''], RRegister)]"

definition is_ascii_upper :: "char \<Rightarrow> bool" where
  "is_ascii_upper c \<longleftrightarrow> 65 \<le> (of_char c :: nat) \<and> (of_char c :: nat) \<le> 90"

definition ascii_lower :: "char \<Rightarrow> char" where
  "ascii_lower c = (if is_ascii_upper c then char_of (of_char c + (32::nat)) else c)"

fun match_segs :: "seg list \<Rightarrow> string list \<Rightarrow> string list option" where
  "match_segs [] [] = Some []"
| "match_segs (Lit l # ps) (x # xs) = (if map ascii_lower x = l then match_segs ps xs else None)"
| "match_segs (Param # ps) (x # xs) = (if x \<noteq> [] then map_option (Cons x) (match_segs ps xs) else None)"
| "match_segs _ _ = None"

definition drop_trailing_empty :: "string list \<Rightarrow> string list" where
  "drop_trailing_empty xs = rev (dropWhile (\<lambda>x. x = []) (rev xs))"

definition path_segments :: "string \<Rightarrow> string list option" where
  "path_segments p =
     (case p of c # rest \<Rightarrow> if c = CHR ''/'' then Some (drop_trailing_empty (js_split CHR ''/'' rest)) else None
      | [] \<Rightarrow> None)"

fun first_match :: "(seg list \<times> route_id) list \<Rightarrow> string list \<Rightarrow> (route_id \<times> string list) option" where
  "first_match [] segs = None"
| "first_match ((pat, r) # rs) segs =
     (case match_segs pat segs of Some ps \<Rightarrow> Some (r, ps) | None \<Rightarrow> first_match rs segs)"

definition match_route :: "string \<Rightarrow> (route_id \<times> string list) option" where
  "match_route p = (case path_segments p of None \<Rightarrow> None | Some segs \<Rightarrow> first_match route_table segs)"

section \<open>Lemmas\<close>

lemma match_segs_length: "match_segs pat segs = Some ps \<Longrightarrow> length segs = length pat"
  by (induction pat segs arbitrary: ps rule: match_segs.induct) (auto split: if_splits)

lemma ascii_lower_id: "\<not> is_ascii_upper c \<Longrightarrow> ascii_lower c = c"
  by (simp add: ascii_lower_def)

lemma map_ascii_lower_id: "\<forall>c\<in>set x. \<not> is_ascii_upper c \<Longrightarrow> map ascii_lower x = x"
  by (induction x) (simp_all add: ascii_lower_id)

lemma js_split_no_sep: "sep \<notin> set x \<Longrightarrow> js_split sep x = [x]"
  using js_split_join [of "[x]" sep] by simp

lemma js_split_append_sep:
  "sep \<notin> set x \<Longrightarrow> js_split sep (x @ sep # y) = x # js_split sep y"
  by (simp add: js_split_def js_split_acc_append)


text \<open>
  C16. The route table is unambiguous: for every list of path segments at most one
  pattern matches, so taking the first match gives the same route as React Router's
  ranking of all matches.
\<close>

theorem route_unambiguous:
  "length (filter (\<lambda>(pat, r). match_segs pat segs \<noteq> None) route_table) \<le> 1"
proof (cases segs)
  case Nil
  then show ?thesis by (simp add: route_table_def)
next
  case (Cons x xs)
  then show ?thesis
    by (cases xs; cases "tl xs"; cases "tl (tl xs)") (auto simp: route_table_def)
qed

lemma js_split_posts_edit:
  assumes "CHR ''/'' \<notin> set i"
  shows "js_split CHR ''/'' (''posts/'' @ i @ ''/edit'') = [''posts'', i, ''edit'']"
proof -
  have s1: "js_split CHR ''/'' (''posts'' @ CHR ''/'' # (i @ CHR ''/'' # ''edit'')) =
      ''posts'' # js_split CHR ''/'' (i @ CHR ''/'' # ''edit'')"
    by (rule js_split_append_sep) simp
  have s2: "js_split CHR ''/'' (i @ CHR ''/'' # ''edit'') = i # js_split CHR ''/'' ''edit''"
    by (rule js_split_append_sep) (use assms in simp)
  have s3: "js_split CHR ''/'' ''edit'' = [''edit'']" by (rule js_split_no_sep) simp
  have "''posts/'' @ i @ ''/edit'' = ''posts'' @ CHR ''/'' # (i @ CHR ''/'' # ''edit'')" by simp
  with s1 s2 s3 show ?thesis by simp
qed

lemma js_split_posts:
  assumes "CHR ''/'' \<notin> set i"
  shows "js_split CHR ''/'' (''posts/'' @ i) = [''posts'', i]"
  using assms js_split_append_sep [of "CHR ''/''" "''posts''" i] by (simp add: js_split_no_sep)

lemmas route_eval = match_route_def path_segments_def post_path_def drop_trailing_empty_def
  route_table_def ascii_lower_def is_ascii_upper_def

lemma match_route_post:
  "i \<noteq> [] \<Longrightarrow> CHR ''/'' \<notin> set i \<Longrightarrow> match_route (post_path i) = Some (RPost, [i])"
  using js_split_posts [of i] by (simp add: route_eval)

lemma match_route_edit:
  "i \<noteq> [] \<Longrightarrow> CHR ''/'' \<notin> set i \<Longrightarrow> match_route (post_path i @ ''/edit'') = Some (REdit, [i])"
  using js_split_posts_edit [of i] by (simp add: route_eval)

text \<open>
  C17. Path round trip: the paths the pages navigate to, \<open>/posts/<id>\<close> and
  \<open>/posts/<id>/edit\<close>, route back to the article page and the edit page of the same
  identifier, for a non-empty identifier without \<open>/\<close>.
\<close>

theorem match_post_path:
  assumes "i \<noteq> []" and "CHR ''/'' \<notin> set i"
  shows "match_route (post_path i) = Some (RPost, [i]) \<and>
         match_route (post_path i @ ''/edit'') = Some (REdit, [i])"
  using match_route_post [OF assms] match_route_edit [OF assms] by simp

theorem match_post_path_witness:
  "match_route (post_path ''65a1f0'') = Some (RPost, [''65a1f0'']) \<and>
   match_route (post_path ''65a1f0'' @ ''/edit'') = Some (REdit, [''65a1f0''])"
  by (rule match_post_path) simp_all

end
