(* ===== verification/App_Shell.thy ===== *)
theory App_Shell
  imports Post_Editor Post_View Routes "HOL-Library.While_Combinator"
begin

text \<open>
  The application shell \<open>App\<close> (src/src/App.js) with the \<open>Header\<close> and the two
  pages: the current location, the session the gate and the header read, the mounted
  page, the log of HTTP requests the pages and \<open>App\<close> have issued, and the
  who-am-I request in flight.  A visit routes the
  location through the table of \<open>Routes\<close>; when the new route renders the same
  element as the current one (\<open>/posts/:id\<close> to \<open>/posts/:id\<close>, or \<open>AddPost\<close> under
  \<open>/posts/:id/edit\<close> and \<open>/add-post\<close>), React keeps the component and only its
  \<open>id\<close> changes; otherwise the old page unmounts and the new one mounts.  After every
  render, a mounted \<open>AddPost\<close> whose gate fails renders \<open><Navigate to="/">\<close>,
  which navigates home once the render has committed, that is after \<open>AddPost\<close>'s own
  effect has run.  A page that unmounts while some of its requests are in flight is
  kept as a retired page: its promises still settle and run their closures, whose state
  setters are no-ops, but whose \<open>alert\<close> and \<open>navigate\<close> calls still take effect
  (React Router's \<open>navigate\<close> of an unmounted component still pushes the location).
\<close>

datatype page_state = HomeP | FullPostP full_post | AddPostP editor | LoginP | RegisterP | NoMatchP

record app =
  location :: string
  session :: auth_session
  page :: page_state
  net_log :: "http_request list"
  retired_editors :: "editor list"
  retired_views :: "full_post list"
  authme_inflight :: "string option option"

definition page_requests :: "page_state \<Rightarrow> http_request list" where
  "page_requests p = (case p of
      FullPostP f \<Rightarrow> map HttpGet (fp_inflight f)
    | AddPostP e \<Rightarrow> map fst (ed_inflight e)
    | _ \<Rightarrow> [])"

definition mount_route :: "(route_id \<times> string list) option \<Rightarrow> page_state" where
  "mount_route r = (case r of
      Some (RHome, _) \<Rightarrow> HomeP
    | Some (RPost, [i]) \<Rightarrow> FullPostP (full_post_mount i)
    | Some (REdit, [i]) \<Rightarrow> AddPostP (add_post_mount (Some i))
    | Some (RAdd, _) \<Rightarrow> AddPostP (add_post_mount None)
    | Some (RLogin, _) \<Rightarrow> LoginP
    | Some (RRegister, _) \<Rightarrow> RegisterP
    | _ \<Rightarrow> NoMatchP)"

text \<open>The page after routing, and whether the mounted component was kept.\<close>

definition route_to :: "(route_id \<times> string list) option \<Rightarrow> page_state \<Rightarrow> page_state \<times> bool" where
  "route_to r p = (case (p, r) of
      (FullPostP f, Some (RPost, [i])) \<Rightarrow> (FullPostP (fp_param_change i f), True)
    | (AddPostP e, Some (REdit, [i])) \<Rightarrow> (AddPostP (param_change (Some i) e), True)
    | (AddPostP e, Some (RAdd, _)) \<Rightarrow> (AddPostP (param_change None e), True)
    | _ \<Rightarrow> (mount_route r, False))"

text \<open>A page that unmounts with requests in flight is retired, unmounted.\<close>

definition retire :: "page_state \<Rightarrow> app \<Rightarrow> app" where
  "retire p a = (case p of
      AddPostP e \<Rightarrow> if ed_inflight e = [] then a
        else a\<lparr>retired_editors := retired_editors a @ [e\<lparr>ed_mounted := False\<rparr>]\<rparr>
    | FullPostP f \<Rightarrow> if fp_inflight f = [] then a
        else a\<lparr>retired_views := retired_views a @ [f\<lparr>fp_mounted := False\<rparr>]\<rparr>
    | _ \<Rightarrow> a)"

text \<open>
  Routing without the gate: the location changes, the new effects' requests are logged,
  and a page that is not kept unmounts.
\<close>

definition go :: "string \<Rightarrow> app \<Rightarrow> app" where
  "go path a =
     (let (p', kept) = route_to (match_route path) (page a);
          issued = (if kept then drop (length (page_requests (page a))) (page_requests p')
                    else page_requests p');
          a' = a\<lparr>location := path, page := p', net_log := net_log a @ issued\<rparr>
      in if kept then a' else retire (page a) a')"

text \<open>The write gate of \<open>AddPost\<close> (line 107) as the navigation its render causes.\<close>

definition gate :: "app \<Rightarrow> app" where
  "gate a = (case page a of
      AddPostP e \<Rightarrow> if can_write (session a) then a else go ''/'' a
    | _ \<Rightarrow> a)"

definition app_navigate :: "string \<Rightarrow> app \<Rightarrow> app" where
  "app_navigate path a = gate (go path a)"

text \<open>
  Start-up at a location: nothing is mounted yet, the session holds the stored token
  and no user payload.  The first commit runs the effects child first, so the page's
  effect issues its request before \<open>App\<close>'s effect (lines 14-16) dispatches
  \<open>fetchAuthMe\<close>.  That effect has dependencies \<open>[]\<close>: the who-am-I request
  is issued once per document and settles at most once.  \<open>authme_inflight\<close> holds
  the token the request carries (the one stored when it was issued); the server accepts
  it only with one (spec section 3: the session is invalidated by the absence of a
  persisted token).
\<close>

definition app_start :: "string option \<Rightarrow> app" where
  "app_start token = \<lparr>location = [], session = \<lparr>auth_data = None, local_token = token\<rparr>,
                        page = NoMatchP, net_log = [], retired_editors = [], retired_views = [],
                        authme_inflight = Some token\<rparr>"

definition app_init :: "string \<Rightarrow> string option \<Rightarrow> app" where
  "app_init path token =
     (let a = app_navigate path (app_start token) in a\<lparr>net_log := net_log a @ [fetchAuthMe_request]\<rparr>)"

text \<open>
  A full document load of \<open>path\<close>, as the editor's Cancel anchor
  (\<open><a href="/">\<close>, AddPost line 148) causes: the old document is discarded with its
  redux store, its mounted and retired pages and its pending closures (the browser
  aborts their requests); the new document starts like \<open>app_init\<close> with the token
  still in \<open>localStorage\<close>, and issues its own who-am-I request.  The log keeps the
  requests already issued.
\<close>

definition reload :: "string \<Rightarrow> app \<Rightarrow> app" where
  "reload path a =
     (let b = app_init path (local_token (session a)) in b\<lparr>net_log := net_log a @ net_log b\<rparr>)"

datatype app_event =
    Visit string
  | EditorEv ed_event
  | ViewEv fp_event
  | AuthMeSettles "string response"
  | LogoutClick bool
  | HeaderLink nat
  | CancelClick
  | RetiredEditorEv nat ed_event
  | RetiredViewEv nat fp_event

text \<open>
  The events a mounted page receives from the user and from its requests.  A change of
  its route parameter and its unmount are caused by the router, through \<open>go\<close>, and
  are not page events.
\<close>

definition ed_page_event :: "ed_event \<Rightarrow> bool" where
  "ed_page_event e \<longleftrightarrow> (case e of ParamChange i \<Rightarrow> False | Unmount \<Rightarrow> False | _ \<Rightarrow> True)"

definition fp_page_event :: "fp_event \<Rightarrow> bool" where
  "fp_page_event e \<longleftrightarrow> (case e of FpGetSettles n r \<Rightarrow> True | _ \<Rightarrow> False)"

text \<open>The navigations a page requested during one of its steps are performed in order.\<close>

definition follow :: "string list \<Rightarrow> app \<Rightarrow> app" where
  "follow paths a = fold app_navigate paths a"

fun app_step :: "app_event \<Rightarrow> app \<Rightarrow> app option" where
  "app_step (Visit path) a = Some (app_navigate path a)"
| "app_step (EditorEv e) a = (if \<not> ed_page_event e then None else case page a of
      AddPostP ed \<Rightarrow> (case ed_step e ed of
          None \<Rightarrow> None
        | Some ed' \<Rightarrow> Some (follow (drop (length (ed_navigations ed)) (ed_navigations ed'))
            (gate (a\<lparr>page := AddPostP ed',
                     net_log := net_log a @ drop (length (ed_inflight ed)) (map fst (ed_inflight ed'))\<rparr>))))
    | _ \<Rightarrow> None)"
| "app_step (ViewEv e) a = (if \<not> fp_page_event e then None else case page a of
      FullPostP f \<Rightarrow> (case fp_step e f of
          None \<Rightarrow> None
        | Some f' \<Rightarrow> Some (a\<lparr>page := FullPostP f',
            net_log := net_log a @ map HttpGet (drop (length (fp_inflight f)) (fp_inflight f'))\<rparr>))
    | _ \<Rightarrow> None)"
| "app_step (AuthMeSettles r) a =
     (case authme_inflight a of
        None \<Rightarrow> None
      | Some t \<Rightarrow> if (case r of Inr u \<Rightarrow> js_truthy t | Inl err \<Rightarrow> True)
          then Some (gate (a\<lparr>session := fetchAuthMe_settle r (session a), authme_inflight := None\<rparr>))
          else None)"
| "app_step (LogoutClick confirmed) a =
     (if header_view (session a) = WriteAndExit
      then Some (gate (a\<lparr>session := onClickLogout confirmed (session a)\<rparr>))
      else None)"

| "app_step (HeaderLink n) a =
     (if n < length (header_items (session a))
      then (case header_items (session a) ! n of
              HLink l path \<Rightarrow> Some (app_navigate path a)
            | HButton l \<Rightarrow> None)
      else None)"
| "app_step CancelClick a = (case page a of AddPostP e \<Rightarrow> Some (reload ''/'' a) | _ \<Rightarrow> None)"
| "app_step (RetiredEditorEv n e) a =
     (if n < length (retired_editors a) then
        (case ed_step e (retired_editors a ! n) of
          None \<Rightarrow> None
        | Some ed' \<Rightarrow> Some (follow (drop (length (ed_navigations (retired_editors a ! n))) (ed_navigations ed'))
            (a\<lparr>retired_editors := (retired_editors a)[n := ed'],
               net_log := net_log a @ drop (length (ed_inflight (retired_editors a ! n)))
                                        (map fst (ed_inflight ed'))\<rparr>)))
      else None)"
| "app_step (RetiredViewEv n e) a =
     (if n < length (retired_views a) then
        (case fp_step e (retired_views a ! n) of
          None \<Rightarrow> None
        | Some f' \<Rightarrow> Some (a\<lparr>retired_views := (retired_views a)[n := f']\<rparr>))
      else None)"

fun app_run :: "app_event list \<Rightarrow> app \<Rightarrow> app option" where
  "app_run [] a = Some a"
| "app_run (e # es) a = (case app_step e a of None \<Rightarrow> None | Some a' \<Rightarrow> app_run es a')"

inductive app_reach :: "app \<Rightarrow> bool" where
  init: "app_reach (app_init path token)"
| step: "app_reach a \<Longrightarrow> app_step e a = Some a' \<Longrightarrow> app_reach a'"

text \<open>
  React's render cycle with \<open><Navigate>\<close>: after a commit, a mounted page that
  rendered a \<open><Navigate to=...>\<close> element causes a navigation, and the new tree is
  rendered again, until no page asks to navigate.  Only \<open>AddPost\<close> renders one
  (line 108).  \<open>gate\<close> above is this loop cut to its single possible round.
\<close>

definition redirect :: "app \<Rightarrow> string option" where
  "redirect a = (case page a of
      AddPostP e \<Rightarrow> if can_write (session a) then None else Some ''/''
    | _ \<Rightarrow> None)"

definition render_loop :: "app \<Rightarrow> app option" where
  "render_loop a = while_option (\<lambda>a. redirect a \<noteq> None) (\<lambda>a. go (the (redirect a)) a) a"

definition gate_ok :: "app \<Rightarrow> bool" where
  "gate_ok a \<longleftrightarrow> (case page a of AddPostP e \<Rightarrow> can_write (session a) | _ \<Rightarrow> True)"

text \<open>The editors alive in a state: the mounted one and the retired ones.\<close>

definition editors_of :: "app \<Rightarrow> editor list" where
  "editors_of a = (case page a of AddPostP e \<Rightarrow> [e] | _ \<Rightarrow> []) @ retired_editors a"

definition app_wf :: "app \<Rightarrow> bool" where
  "app_wf a \<longleftrightarrow> list_all ed_wf (editors_of a)"

text \<open>Retired pages are unmounted.\<close>

definition retired_ok :: "app \<Rightarrow> bool" where
  "retired_ok a \<longleftrightarrow> list_all (\<lambda>e. \<not> ed_mounted e) (retired_editors a) \<and>
                   list_all (\<lambda>f. \<not> fp_mounted f) (retired_views a)"

text \<open>The page on screen is mounted.\<close>

definition page_mounted :: "page_state \<Rightarrow> bool" where
  "page_mounted p \<longleftrightarrow> (case p of AddPostP e \<Rightarrow> ed_mounted e | FullPostP f \<Rightarrow> fp_mounted f | _ \<Rightarrow> True)"

section \<open>Lemmas\<close>

text \<open>The shape of a successful step of a page event, mounted or retired.\<close>

lemma app_step_EditorEvE:
  assumes "app_step (EditorEv v) a = Some a'"
  obtains ed ed' where "ed_page_event v" and "page a = AddPostP ed" and "ed_step v ed = Some ed'"
    and "a' = follow (drop (length (ed_navigations ed)) (ed_navigations ed'))
              (gate (a\<lparr>page := AddPostP ed',
                       net_log := net_log a @ drop (length (ed_inflight ed)) (map fst (ed_inflight ed'))\<rparr>))"
  using assms by (auto split: page_state.splits option.splits if_splits)

lemma app_step_ViewEvE:
  assumes "app_step (ViewEv v) a = Some a'"
  obtains f f' where "fp_page_event v" and "page a = FullPostP f" and "fp_step v f = Some f'"
    and "a' = a\<lparr>page := FullPostP f',
               net_log := net_log a @ map HttpGet (drop (length (fp_inflight f)) (fp_inflight f'))\<rparr>"
  using assms by (auto split: page_state.splits option.splits if_splits)

lemma app_step_RetiredEditorEvE:
  assumes "app_step (RetiredEditorEv n v) a = Some a'"
  obtains ed' where "n < length (retired_editors a)" and "ed_step v (retired_editors a ! n) = Some ed'"
    and "a' = follow (drop (length (ed_navigations (retired_editors a ! n))) (ed_navigations ed'))
              (a\<lparr>retired_editors := (retired_editors a)[n := ed'],
                 net_log := net_log a @ drop (length (ed_inflight (retired_editors a ! n)))
                                          (map fst (ed_inflight ed'))\<rparr>)"
  using assms by (auto split: if_splits option.splits)

lemma app_step_RetiredViewEvE:
  assumes "app_step (RetiredViewEv n v) a = Some a'"
  obtains f' where "n < length (retired_views a)" and "fp_step v (retired_views a ! n) = Some f'"
    and "a' = a\<lparr>retired_views := (retired_views a)[n := f']\<rparr>"
  using assms by (auto split: if_splits option.splits)

lemma match_route_home [simp]: "match_route ''/'' = Some (RHome, [])"
  by (simp add: route_eval)

lemma match_route_add [simp]: "match_route ''/add-post'' = Some (RAdd, [])"
  by (simp add: route_eval js_split_def)

lemma retire_fields [simp]:
  "location (retire p a) = location a" "page (retire p a) = page a"
  "session (retire p a) = session a" "net_log (retire p a) = net_log a"
  by (simp_all add: retire_def split: page_state.splits)

lemma go_home: "go ''/'' a = retire (page a) (a\<lparr>location := ''/'', page := HomeP\<rparr>)"
  by (cases "page a") (simp_all add: go_def route_to_def mount_route_def page_requests_def)

lemma gate_ok_gate: "gate_ok (gate a)"
  by (auto simp: gate_def gate_ok_def go_home split: page_state.splits)

lemma gate_ok_follow: "gate_ok a \<Longrightarrow> gate_ok (follow ps a)"
  by (induction ps arbitrary: a) (simp_all add: follow_def app_navigate_def gate_ok_gate)

lemma gate_ok_init: "gate_ok (app_init path t)"
  using gate_ok_gate [of "go path (app_start t)"] by (simp add: app_init_def Let_def app_navigate_def gate_ok_def split: page_state.splits)

lemma gate_ok_reload: "gate_ok (reload path a)"
  using gate_ok_init [of path "local_token (session a)"]
  by (simp add: reload_def Let_def gate_ok_def split: page_state.splits)

lemma app_step_gate_ok:
  assumes "app_step e a = Some a'" and "gate_ok a"
  shows "gate_ok a'"
proof (cases e)
  case (ViewEv v)
  with assms show ?thesis by (auto simp: gate_ok_def split: page_state.splits option.splits if_splits)
next
  case (RetiredEditorEv n v)
  have "gate_ok (a\<lparr>retired_editors := x, net_log := y\<rparr>)" for x y
    using assms(2) by (simp add: gate_ok_def split: page_state.splits)
  with assms RetiredEditorEv show ?thesis by (auto intro: gate_ok_follow split: option.splits if_splits)
next
  case (RetiredViewEv n v)
  with assms show ?thesis by (auto simp: gate_ok_def split: option.splits if_splits page_state.splits)
qed (use assms in \<open>auto simp: app_navigate_def gate_ok_gate gate_ok_follow gate_ok_reload
       split: page_state.splits option.splits if_splits header_item.splits\<close>)

lemma app_reach_gate_ok: "app_reach a \<Longrightarrow> gate_ok a"
proof (induction rule: app_reach.induct)
  case (init path token)
  show ?case by (rule gate_ok_init)
next
  case (step a e a')
  show ?case by (rule app_step_gate_ok [OF step.hyps(2) step.IH])
qed

lemma app_run_reach: "app_run es a = Some a' \<Longrightarrow> app_reach a \<Longrightarrow> app_reach a'"
proof (induction es arbitrary: a)
  case Nil
  then show ?case by simp
next
  case (Cons e es)
  then show ?case by (auto split: option.splits intro: app_reach.step)
qed

lemma retired_ok_upd [simp]:
  "retired_ok (a\<lparr>page := p, net_log := ns\<rparr>) = retired_ok a"
  "retired_ok (a\<lparr>session := u\<rparr>) = retired_ok a"
  "retired_ok (a\<lparr>session := u, authme_inflight := b\<rparr>) = retired_ok a"
  by (simp_all add: retired_ok_def)

lemma retired_ok_retire: "retired_ok a \<Longrightarrow> retired_ok (retire p a)"
  by (simp add: retired_ok_def retire_def split: page_state.splits)

lemma retired_ok_go:
  assumes "retired_ok a" shows "retired_ok (go path a)"
proof -
  have "retired_ok (a\<lparr>location := l, page := p, net_log := ns\<rparr>)" for l p ns
    using assms by (simp add: retired_ok_def)
  then show ?thesis unfolding go_def Let_def by (auto intro: retired_ok_retire split: prod.splits)
qed

lemma retired_ok_navigate: "retired_ok a \<Longrightarrow> retired_ok (app_navigate path a)"
  by (simp add: app_navigate_def gate_def retired_ok_go split: page_state.splits)

lemma retired_ok_follow: "retired_ok a \<Longrightarrow> retired_ok (follow ps a)"
  by (induction ps arbitrary: a) (simp_all add: follow_def retired_ok_navigate)

lemma retired_ok_gate: "retired_ok a \<Longrightarrow> retired_ok (gate a)"
  by (simp add: gate_def retired_ok_go split: page_state.splits)

lemma retired_ok_init: "retired_ok (app_init path t)"
  using retired_ok_navigate [of "app_start t" path] by (simp add: app_init_def Let_def app_start_def retired_ok_def)

lemma retired_ok_reload: "retired_ok (reload path a)"
  using retired_ok_init [of path "local_token (session a)"] by (simp add: reload_def Let_def retired_ok_def)

lemma app_step_retired_ok:
  assumes "app_step e a = Some a'" and "retired_ok a"
  shows "retired_ok a'"
proof (cases e)
  case (RetiredEditorEv n v)
  with assms obtain ed' where n: "n < length (retired_editors a)"
    and st: "ed_step v (retired_editors a ! n) = Some ed'"
    and a': "a' = follow (drop (length (ed_navigations (retired_editors a ! n))) (ed_navigations ed'))
              (a\<lparr>retired_editors := (retired_editors a)[n := ed'],
                 net_log := net_log a @ drop (length (ed_inflight (retired_editors a ! n)))
                                          (map fst (ed_inflight ed'))\<rparr>)"
    by (auto elim!: app_step_RetiredEditorEvE simp del: app_step.simps)
  from assms(2) n have "\<not> ed_mounted (retired_editors a ! n)" by (simp add: retired_ok_def list_all_length)
  with st have "\<not> ed_mounted ed'" by (rule ed_step_keeps_unmounted)
  with assms(2) show ?thesis unfolding a' by (intro retired_ok_follow) (simp add: retired_ok_def)
next
  case (RetiredViewEv n v)
  with assms obtain f' where n: "n < length (retired_views a)"
    and st: "fp_step v (retired_views a ! n) = Some f'"
    and a': "a' = a\<lparr>retired_views := (retired_views a)[n := f']\<rparr>"
    by (auto elim!: app_step_RetiredViewEvE simp del: app_step.simps)
  from assms(2) n have "\<not> fp_mounted (retired_views a ! n)" by (simp add: retired_ok_def list_all_length)
  with st have "\<not> fp_mounted f'" by (rule fp_step_keeps_unmounted)
  with assms(2) show ?thesis unfolding a' by (simp add: retired_ok_def)
qed (use assms in \<open>auto intro!: retired_ok_follow retired_ok_gate retired_ok_navigate retired_ok_reload
       split: page_state.splits option.splits if_splits header_item.splits\<close>)

lemma app_reach_retired_ok: "app_reach a \<Longrightarrow> retired_ok a"
proof (induction rule: app_reach.induct)
  case (init path token)
  show ?case by (rule retired_ok_init)
next
  case (step a e a')
  show ?case by (rule app_step_retired_ok [OF step.hyps(2) step.IH])
qed

lemma app_wf_upd [simp]:
  "app_wf (a\<lparr>session := u\<rparr>) = app_wf a"
  "app_wf (a\<lparr>session := u, authme_inflight := b\<rparr>) = app_wf a"
  "app_wf (a\<lparr>retired_views := vs\<rparr>) = app_wf a"
  "app_wf (a\<lparr>net_log := ns\<rparr>) = app_wf a"
  "app_wf (a\<lparr>location := l\<rparr>) = app_wf a"
  by (simp_all add: app_wf_def editors_of_def)

lemma app_wf_page:
  "app_wf (a\<lparr>page := p\<rparr>) \<longleftrightarrow>
   (case p of AddPostP e \<Rightarrow> ed_wf e | _ \<Rightarrow> True) \<and> list_all ed_wf (retired_editors a)"
  by (simp add: app_wf_def editors_of_def split: page_state.splits)

lemma app_wf_retired: "app_wf a \<Longrightarrow> list_all ed_wf (retired_editors a)"
  by (simp add: app_wf_def editors_of_def)

lemma app_wf_retire:
  "app_wf a \<Longrightarrow> (case p of AddPostP e \<Rightarrow> ed_wf e | _ \<Rightarrow> True) \<Longrightarrow> app_wf (retire p a)"
  by (auto simp: retire_def app_wf_def editors_of_def split: page_state.splits)

lemma route_to_wf:
  "(case p of AddPostP e \<Rightarrow> ed_wf e | _ \<Rightarrow> True) \<Longrightarrow>
   (case fst (route_to r p) of AddPostP e \<Rightarrow> ed_wf e | _ \<Rightarrow> True)"
  by (auto simp: route_to_def mount_route_def param_change_def ed_wf_mount
           split: page_state.splits option.splits prod.splits route_id.splits list.splits)

lemma app_wf_go:
  assumes "app_wf a" shows "app_wf (go path a)"
proof -
  let ?c = "\<lambda>p. case p of AddPostP e \<Rightarrow> ed_wf e | _ \<Rightarrow> True"
  from assms have old: "?c (page a)" and ret: "list_all ed_wf (retired_editors a)"
    by (simp_all add: app_wf_def editors_of_def split: page_state.splits)
  from route_to_wf [OF old] have new: "?c (fst (route_to (match_route path) (page a)))" .
  have "app_wf (a\<lparr>location := path, page := p', net_log := ns\<rparr>)" if "?c p'" for p' ns
    using that ret by (simp add: app_wf_def editors_of_def split: page_state.splits)
  with new old show ?thesis
    unfolding go_def Let_def by (auto intro: app_wf_retire split: prod.splits)
qed

lemma app_wf_navigate: "app_wf a \<Longrightarrow> app_wf (app_navigate path a)"
  by (simp add: app_navigate_def gate_def app_wf_go split: page_state.splits)

lemma app_wf_follow: "app_wf a \<Longrightarrow> app_wf (follow ps a)"
  by (induction ps arbitrary: a) (simp_all add: follow_def app_wf_navigate)

lemma app_wf_gate: "app_wf a \<Longrightarrow> app_wf (gate a)"
  by (simp add: gate_def app_wf_go split: page_state.splits)

lemma app_wf_init: "app_wf (app_init path t)"
  using app_wf_navigate [of "app_start t" path] by (simp add: app_init_def Let_def app_start_def app_wf_def editors_of_def)

lemma app_wf_reload: "app_wf (reload path a)"
  using app_wf_init [of path "local_token (session a)"] by (simp add: reload_def Let_def)

lemma app_step_wf:
  assumes "app_step e a = Some a'" and "app_wf a"
  shows "app_wf a'"
proof (cases e)
  case (EditorEv v)
  with assms obtain ed ed' where p: "page a = AddPostP ed" and st: "ed_step v ed = Some ed'"
    and a': "a' = follow (drop (length (ed_navigations ed)) (ed_navigations ed'))
            (gate (a\<lparr>page := AddPostP ed',
                     net_log := net_log a @ drop (length (ed_inflight ed)) (map fst (ed_inflight ed'))\<rparr>))"
    by (auto elim!: app_step_EditorEvE simp del: app_step.simps)
  from assms(2) p have "ed_wf ed" by (simp add: app_wf_def editors_of_def)
  with st have "ed_wf ed'" by (rule ed_step_wf)
  with assms(2) have "app_wf (a\<lparr>page := AddPostP ed', net_log := n\<rparr>)" for n
    by (simp add: app_wf_def editors_of_def)
  then show ?thesis unfolding a' by (intro app_wf_follow app_wf_gate)
next
  case (ViewEv v)
  with assms show ?thesis
    by (auto simp: app_wf_page app_wf_retired split: page_state.splits option.splits if_splits)
next
  case (RetiredEditorEv n v)
  with assms obtain ed' where n: "n < length (retired_editors a)"
    and st: "ed_step v (retired_editors a ! n) = Some ed'"
    and a': "a' = follow (drop (length (ed_navigations (retired_editors a ! n))) (ed_navigations ed'))
              (a\<lparr>retired_editors := (retired_editors a)[n := ed'],
                 net_log := net_log a @ drop (length (ed_inflight (retired_editors a ! n)))
                                          (map fst (ed_inflight ed'))\<rparr>)"
    by (auto elim!: app_step_RetiredEditorEvE simp del: app_step.simps)
  from app_wf_retired [OF assms(2)] n have "ed_wf (retired_editors a ! n)" by (simp add: list_all_length)
  with st have "ed_wf ed'" by (rule ed_step_wf)
  with assms(2) have "app_wf (a\<lparr>retired_editors := (retired_editors a)[n := ed'], net_log := ns\<rparr>)" for ns
    by (simp add: app_wf_def editors_of_def)
  then show ?thesis unfolding a' by (rule app_wf_follow)
qed (use assms in \<open>auto intro!: app_wf_follow app_wf_gate app_wf_navigate app_wf_reload
       split: page_state.splits option.splits if_splits header_item.splits\<close>)

lemma app_reach_wf: "app_reach a \<Longrightarrow> app_wf a"
proof (induction rule: app_reach.induct)
  case (init path token)
  show ?case by (rule app_wf_init)
next
  case (step a e a')
  show ?case by (rule app_step_wf [OF step.hyps(2) step.IH])
qed

subsection \<open>The page on screen is mounted\<close>

lemma ed_page_step_mounted:
  "ed_step e s = Some s' \<Longrightarrow> ed_page_event e \<Longrightarrow> ed_mounted s' = ed_mounted s"
  by (cases e)
     (auto elim!: ed_step_LoadSettlesE ed_step_UploadSettlesE ed_step_SubmitSettlesE
           dest!: take_inflight_fields
           simp: ed_page_event_def ui_event_def ed_set_def ed_alert_def ed_issue_def load_then_def
                 handleChangeFile_def onClickRemoveImage_def onSubmit_def
           split: if_splits sum.splits)

lemma fp_page_step_mounted:
  "fp_step e f = Some f' \<Longrightarrow> fp_page_event e \<Longrightarrow> fp_mounted f' = fp_mounted f"
  by (cases e) (auto simp: fp_page_event_def fp_step_settle fp_get_settle_frame split: if_splits)

lemma page_mounted_route_to: "page_mounted p \<Longrightarrow> page_mounted (fst (route_to r p))"
  by (auto simp: route_to_def mount_route_def page_mounted_def param_change_def load_effect_def
           ed_issue_def add_post_mount_def full_post_mount_def fp_param_change_def fp_effect_def
           split: page_state.splits option.splits prod.splits route_id.splits list.splits)

lemma page_mounted_go: "page_mounted (page a) \<Longrightarrow> page_mounted (page (go path a))"
  using page_mounted_route_to [of "page a" "match_route path"]
  by (auto simp: go_def Let_def split: prod.splits)

lemma page_mounted_gate: "page_mounted (page a) \<Longrightarrow> page_mounted (page (gate a))"
  by (auto simp: gate_def go_home page_mounted_def split: page_state.splits)

lemma page_mounted_navigate: "page_mounted (page a) \<Longrightarrow> page_mounted (page (app_navigate path a))"
  by (simp add: app_navigate_def page_mounted_go page_mounted_gate)

lemma page_mounted_follow: "page_mounted (page a) \<Longrightarrow> page_mounted (page (follow ps a))"
  by (induction ps arbitrary: a) (simp_all add: follow_def page_mounted_navigate)

lemma page_mounted_init: "page_mounted (page (app_init path t))"
  using page_mounted_navigate [of "app_start t" path]
  by (simp add: app_init_def Let_def app_start_def page_mounted_def)

lemma page_mounted_reload: "page_mounted (page (reload path a))"
  using page_mounted_init [of path "local_token (session a)"] by (simp add: reload_def Let_def)

lemma app_step_page_mounted:
  assumes "app_step e a = Some a'" and "page_mounted (page a)"
  shows "page_mounted (page a')"
proof (cases e)
  case (EditorEv v)
  with assms(1) obtain ed ed' where ev: "ed_page_event v" and p: "page a = AddPostP ed"
    and st: "ed_step v ed = Some ed'"
    and a': "a' = follow (drop (length (ed_navigations ed)) (ed_navigations ed'))
            (gate (a\<lparr>page := AddPostP ed',
                     net_log := net_log a @ drop (length (ed_inflight ed)) (map fst (ed_inflight ed'))\<rparr>))"
    by (auto elim!: app_step_EditorEvE simp del: app_step.simps)
  from assms(2) p ed_page_step_mounted [OF st ev] have "ed_mounted ed'" by (simp add: page_mounted_def)
  then show ?thesis unfolding a' by (intro page_mounted_follow page_mounted_gate) (simp add: page_mounted_def)
next
  case (ViewEv v)
  with assms(1) obtain f f' where ev: "fp_page_event v" and p: "page a = FullPostP f"
    and st: "fp_step v f = Some f'" and pa': "page a' = FullPostP f'"
    by (auto elim!: app_step_ViewEvE simp del: app_step.simps)
  from assms(2) p fp_page_step_mounted [OF st ev] pa' show ?thesis by (simp add: page_mounted_def)
qed (use assms in \<open>auto intro!: page_mounted_follow page_mounted_gate page_mounted_navigate page_mounted_reload
       split: page_state.splits option.splits if_splits header_item.splits\<close>)

lemma app_reach_page_mounted: "app_reach a \<Longrightarrow> page_mounted (page a)"
  by (induction rule: app_reach.induct) (auto intro: page_mounted_init app_step_page_mounted)

lemmas app_eval = app_init_def app_start_def ed_page_event_def fp_page_event_def app_navigate_def go_def route_to_def mount_route_def page_requests_def
  gate_def go_home retire_def follow_def ed_eval can_write_iff

text \<open>
  C18. Write gate: in every reachable state of the application, whenever the editor is
  the mounted page the session passes the gate (a stored non-empty token or a user
  payload).  A failing gate always ends in the redirect home, also when the session
  changes under a mounted editor.
\<close>

theorem editor_only_when_authorised:
  assumes "app_reach a" and "page a = AddPostP e"
  shows "can_write (session a)"
  using app_reach_gate_ok [OF assms(1)] assms(2) by (simp add: gate_ok_def)

text \<open>
  C20. The gate does not keep the edit page from fetching: an unauthenticated visitor
  who opens \<open>/posts/<id>/edit\<close> is redirected home, but \<open>AddPost\<close>'s effect has
  already issued \<open>GET /posts/<id>\<close>, and the unmounted editor is left waiting for it.
\<close>

theorem unauthenticated_edit_issues_get:
  assumes "\<not> can_write (session a)" and "page a = HomeP" and "i \<noteq> []" and "CHR ''/'' \<notin> set i"
  shows "app_navigate (post_path i @ ''/edit'') a =
           a\<lparr>location := ''/'', page := HomeP, net_log := net_log a @ [HttpGet (post_path i)],
              retired_editors := retired_editors a @ [(add_post_mount (Some i))\<lparr>ed_mounted := False\<rparr>]\<rparr>"
proof -
  from match_route_edit [OF assms(3,4)]
  have m: "match_route (post_path i @ ''/edit'') = Some (REdit, [i])" .
  show ?thesis
    using assms(1,2,3) m
    by (simp add: app_navigate_def go_def route_to_def mount_route_def page_requests_def gate_def
        go_home retire_def add_post_mount_def load_effect_def ed_issue_def js_template_def)
qed

text \<open>
  C21. A confirmed logout from the header while the editor is mounted clears the session
  so that the gate fails, and the editor redirects home.
\<close>

theorem logout_on_editor_redirects:
  assumes "page a = AddPostP e" and "app_step (LogoutClick True) a = Some a'"
  shows "page a' = HomeP \<and> location a' = ''/'' \<and> \<not> can_write (session a')"
  using assms
  by (auto simp: gate_def go_home onClickLogout_def logout_reducer_def can_write_iff split: if_splits)

text \<open>
  C29. A submit still settles after the editor has unmounted, and its closure still
  calls \<open>navigate\<close>: when a retired editor's create or update succeeds, the whole
  application navigates to \<open>/posts/<id>\<close> (the route id for an update, the server's
  \<open>_id\<close> for a create), whatever page is on screen.
\<close>

theorem retired_submit_navigates:
  assumes "n < length (retired_editors a)"
    and "take_inflight k (retired_editors a ! n) = Some ((req, KSubmit ed i), t)"
  shows "app_step (RetiredEditorEv n (SubmitSettles k (Inr d))) a =
           Some (app_navigate (post_path (if ed then js_template i else post_id d))
                  (a\<lparr>retired_editors := (retired_editors a)[n := submit_settle ed i (Inr d) t]\<rparr>))"
proof -
  let ?e = "retired_editors a ! n"
  have st: "ed_step (SubmitSettles k (Inr d)) ?e = Some (submit_settle ed i (Inr d) t)"
    using assms(2) by (simp add: ed_step_settle_simps)
  from take_inflight_fields [OF assms(2)]
  have "ed_navigations t = ed_navigations ?e" and "length (ed_inflight t) < length (ed_inflight ?e)"
    by auto
  then show ?thesis using assms(1) st by (simp add: follow_def)
qed

text \<open>
  C31. The render cycle terminates: from every application state the loop of renders
  and \<open><Navigate>\<close> redirects stops, after at most one redirect, in the state that
  \<open>gate\<close> computes.
\<close>

theorem render_loop_terminates: "render_loop a = Some (gate a)"
proof (cases "redirect a")
  case None
  then have "gate a = a" by (auto simp: redirect_def gate_def split: page_state.splits if_splits)
  with None show ?thesis by (simp add: render_loop_def while_option_unfold [of _ _ a])
next
  case (Some p)
  then have p: "p = ''/''" and g: "gate a = go ''/'' a"
    by (auto simp: redirect_def gate_def split: page_state.splits if_splits)
  have "redirect (go ''/'' a) = None" by (simp add: redirect_def go_home)
  with Some p g show ?thesis
    by (simp add: render_loop_def while_option_unfold [of _ _ a] while_option_unfold [of _ _ "go ''/'' a"])
qed

text \<open>
  C33. The header and the write gate agree: the header shows "Write an article" only to
  a session with a user payload, which the gate accepts, so following that link always
  ends on the editor at \<open>/add-post\<close>, never redirected.
\<close>

theorem header_write_link_reaches_editor:
  assumes "app_step (HeaderLink n) a = Some a'" and "n < length (header_items (session a))"
    and "header_items (session a) ! n = HLink l ''/add-post''"
  shows "location a' = ''/add-post'' \<and> (\<exists>e. page a' = AddPostP e) \<and> session a' = session a"
proof -
  from assms have a': "a' = app_navigate ''/add-post'' a" by simp
  from assms(2,3) have "HLink l ''/add-post'' \<in> set (header_items (session a))" by (metis nth_mem)
  then have w: "can_write (session a)" by (intro selectIsAuth_can_write header_items_add_post)
  have g: "location (go ''/add-post'' a) = ''/add-post'' \<and> (\<exists>e. page (go ''/add-post'' a) = AddPostP e) \<and>
           session (go ''/add-post'' a) = session a"
    by (cases "page a") (auto simp: go_def route_to_def mount_route_def Let_def)
  with w show ?thesis unfolding a' app_navigate_def gate_def by (auto split: page_state.splits)
qed

text \<open>
  C34. Well-typed continuations across the application: in every reachable state, each
  request awaited by a live editor, mounted or retired, has the shape its continuation
  expects (a GET for the load handler, an image upload for the upload handler, a
  \<open>PATCH /posts/<x>\<close> with a non-empty captured \<open>x\<close> or a \<open>POST /posts\<close> for
  the submit handler), so no closure resumes with a response of another request.
\<close>

theorem editors_well_typed:
  assumes "app_reach a" and "e \<in> set (editors_of a)" and "(req, k) \<in> set (ed_inflight e)"
  shows "cont_ok req k"
  using app_reach_wf [OF assms(1)] assms(2,3) by (auto simp: app_wf_def ed_wf_def list_all_iff)

subsection \<open>Witnesses\<close>

theorem editor_only_when_authorised_witness:
  "app_reach (app_init ''/add-post'' (Some ''tok'')) \<and>
   page (app_init ''/add-post'' (Some ''tok'')) = AddPostP (add_post_mount None) \<and>
   can_write (session (app_init ''/add-post'' (Some ''tok'')))"
proof -
  have r: "app_reach (app_init ''/add-post'' (Some ''tok''))" by (rule app_reach.init)
  have p: "page (app_init ''/add-post'' (Some ''tok'')) = AddPostP (add_post_mount None)"
    by (simp add: app_eval)
  from editor_only_when_authorised [OF r p] r p show ?thesis by simp
qed

theorem unauthenticated_edit_issues_get_witness:
  "\<not> can_write (session (app_init ''/'' None)) \<and> page (app_init ''/'' None) = HomeP \<and>
   app_navigate (post_path ''7'' @ ''/edit'') (app_init ''/'' None) =
     (app_init ''/'' None)\<lparr>location := ''/'', page := HomeP,
        net_log := net_log (app_init ''/'' None) @ [HttpGet (post_path ''7'')],
        retired_editors := retired_editors (app_init ''/'' None) @
          [(add_post_mount (Some ''7''))\<lparr>ed_mounted := False\<rparr>]\<rparr>"
proof -
  have c: "\<not> can_write (session (app_init ''/'' None))" and h: "page (app_init ''/'' None) = HomeP"
    by (simp_all add: app_eval)
  from unauthenticated_edit_issues_get [OF c h, of "''7''"] c h show ?thesis by simp
qed

theorem logout_on_editor_redirects_witness:
  "\<exists>a a' e. app_run [AuthMeSettles (Inr ''user'')] (app_init ''/add-post'' (Some ''tok'')) = Some a \<and>
     page a = AddPostP e \<and> app_step (LogoutClick True) a = Some a' \<and>
     page a' = HomeP \<and> location a' = ''/'' \<and> \<not> can_write (session a')"
proof -
  define a where "a = the (app_run [AuthMeSettles (Inr ''user'')] (app_init ''/add-post'' (Some ''tok'')))"
  have run: "app_run [AuthMeSettles (Inr ''user'')] (app_init ''/add-post'' (Some ''tok'')) = Some a"
    by (simp add: a_def app_eval)
  have p: "page a = AddPostP (add_post_mount None)" by (simp add: a_def app_eval)
  have "\<exists>a'. app_step (LogoutClick True) a = Some a'"
    by (simp add: a_def app_eval header_view_def selectIsAuth_def)
  then obtain a' where st: "app_step (LogoutClick True) a = Some a'" by blast
  from logout_on_editor_redirects [OF p st] run p st show ?thesis by blast
qed

theorem retired_submit_navigates_witness:
  "\<exists>a t. app_run [EditorEv Submit, Visit ''/''] (app_init ''/add-post'' (Some ''tok'')) = Some a \<and>
     0 < length (retired_editors a) \<and>
     take_inflight 0 (retired_editors a ! 0) =
       Some ((HttpPost ''/posts'' (Fields \<lparr>fld_title = [], fld_imageUrl = [], fld_tags = [[]],
                                            fld_text = []\<rparr>), KSubmit False None), t) \<and>
     app_step (RetiredEditorEv 0 (SubmitSettles 0 (Inr \<lparr>post_id = ''42'', post_title = [],
         post_text = [], post_tags = [], post_imageUrl = [], post_user = ''u'', post_createdAt = [],
         post_viewsCount = 0\<rparr>))) a =
       Some (app_navigate (post_path ''42'')
         (a\<lparr>retired_editors := (retired_editors a)[0 := submit_settle False None (Inr \<lparr>post_id = ''42'',
            post_title = [], post_text = [], post_tags = [], post_imageUrl = [], post_user = ''u'',
            post_createdAt = [], post_viewsCount = 0\<rparr>) t]\<rparr>))"
proof -
  define a where "a = the (app_run [EditorEv Submit, Visit ''/''] (app_init ''/add-post'' (Some ''tok'')))"
  have run: "app_run [EditorEv Submit, Visit ''/''] (app_init ''/add-post'' (Some ''tok'')) = Some a"
    by (simp add: a_def app_eval)
  have n: "0 < length (retired_editors a)" by (simp add: a_def app_eval)
  define t where "t = (retired_editors a ! 0)\<lparr>ed_inflight := []\<rparr>"
  have tk: "take_inflight 0 (retired_editors a ! 0) =
       Some ((HttpPost ''/posts'' (Fields \<lparr>fld_title = [], fld_imageUrl = [], fld_tags = [[]],
                                            fld_text = []\<rparr>), KSubmit False None), t)"
    by (simp add: a_def t_def app_eval remove_nth_def derive_tags_def js_split_def)
  have st: "app_step (RetiredEditorEv 0 (SubmitSettles 0 (Inr \<lparr>post_id = ''42'', post_title = [],
         post_text = [], post_tags = [], post_imageUrl = [], post_user = ''u'', post_createdAt = [],
         post_viewsCount = 0\<rparr>))) a =
       Some (app_navigate (post_path ''42'')
         (a\<lparr>retired_editors := (retired_editors a)[0 := submit_settle False None (Inr \<lparr>post_id = ''42'',
            post_title = [], post_text = [], post_tags = [], post_imageUrl = [], post_user = ''u'',
            post_createdAt = [], post_viewsCount = 0\<rparr>) t]\<rparr>))"
    using retired_submit_navigates [OF n tk] by (simp only: if_False post.select_convs)
  show ?thesis by (intro exI [of _ a] exI [of _ t] conjI run n tk st)
qed

theorem header_write_link_reaches_editor_witness:
  "\<exists>a a'. app_run [AuthMeSettles (Inr ''user'')] (app_init ''/'' (Some ''tok'')) = Some a \<and>
     app_step (HeaderLink 1) a = Some a' \<and> 1 < length (header_items (session a)) \<and>
     header_items (session a) ! 1 = HLink ''Write an article'' ''/add-post'' \<and>
     location a' = ''/add-post'' \<and> (\<exists>e. page a' = AddPostP e)"
proof -
  define a where "a = the (app_run [AuthMeSettles (Inr ''user'')] (app_init ''/'' (Some ''tok'')))"
  have run: "app_run [AuthMeSettles (Inr ''user'')] (app_init ''/'' (Some ''tok'')) = Some a"
    by (simp add: a_def app_eval)
  have h: "1 < length (header_items (session a))"
    "header_items (session a) ! 1 = HLink ''Write an article'' ''/add-post''"
    by (simp_all add: a_def app_eval header_items_def selectIsAuth_def)
  then have "\<exists>a'. app_step (HeaderLink 1) a = Some a'" by simp
  then obtain a' where st: "app_step (HeaderLink 1) a = Some a'" ..
  from header_write_link_reaches_editor [OF st h] run st h show ?thesis by blast
qed

theorem editors_well_typed_witness:
  "\<exists>a. app_run [EditorEv Submit, Visit ''/''] (app_init ''/add-post'' (Some ''tok'')) = Some a \<and>
     app_reach a \<and> retired_editors a ! 0 \<in> set (editors_of a) \<and>
     (HttpPost ''/posts'' (Fields \<lparr>fld_title = [], fld_imageUrl = [], fld_tags = [[]], fld_text = []\<rparr>),
      KSubmit False None) \<in> set (ed_inflight (retired_editors a ! 0)) \<and>
     cont_ok (HttpPost ''/posts'' (Fields \<lparr>fld_title = [], fld_imageUrl = [], fld_tags = [[]],
       fld_text = []\<rparr>)) (KSubmit False None)"
proof -
  define a where "a = the (app_run [EditorEv Submit, Visit ''/''] (app_init ''/add-post'' (Some ''tok'')))"
  have run: "app_run [EditorEv Submit, Visit ''/''] (app_init ''/add-post'' (Some ''tok'')) = Some a"
    by (simp add: a_def app_eval)
  have r: "app_reach a" by (rule app_run_reach [OF run app_reach.init])
  have e: "retired_editors a ! 0 \<in> set (editors_of a)"
    by (simp add: a_def app_eval editors_of_def)
  have i: "(HttpPost ''/posts'' (Fields \<lparr>fld_title = [], fld_imageUrl = [], fld_tags = [[]], fld_text = []\<rparr>),
      KSubmit False None) \<in> set (ed_inflight (retired_editors a ! 0))"
    by (simp add: a_def app_eval derive_tags_def js_split_def)
  from editors_well_typed [OF r e i] run r e i show ?thesis by blast
qed

end
