(* ===== verification/App_Session.thy ===== *)
theory App_Session
  imports App_Shell
begin

text \<open>
  The session at the level of the application: which events change it (the settlement
  of the start-up \<open>fetchAuthMe\<close>, the header's logout and the full reload caused by
  the editor's Cancel anchor), and the invariant that relates the who-am-I request in
  flight to the session: it carries the token still stored and no payload is set while
  it is in flight, so a logout can never happen before it settles.
\<close>

section \<open>Lemmas\<close>

lemma retire_session [simp]:
  "authme_inflight (retire p a) = authme_inflight a"
  by (simp add: retire_def split: page_state.splits)

lemma go_session [simp]:
  "session (go path a) = session a" "authme_inflight (go path a) = authme_inflight a"
  by (simp_all add: go_def Let_def split: prod.splits)

lemma gate_session [simp]:
  "session (gate a) = session a" "authme_inflight (gate a) = authme_inflight a"
  by (simp_all add: gate_def split: page_state.splits)

lemma navigate_session [simp]:
  "session (app_navigate path a) = session a" "authme_inflight (app_navigate path a) = authme_inflight a"
  by (simp_all add: app_navigate_def)

lemma follow_session [simp]:
  "session (follow ps a) = session a \<and> authme_inflight (follow ps a) = authme_inflight a"
  by (induction ps arbitrary: a) (simp_all add: follow_def)

text \<open>Only three events touch the session.\<close>

lemma app_step_session:
  assumes "app_step e a = Some a'"
  shows "(\<exists>r. e = AuthMeSettles r) \<or> (\<exists>c. e = LogoutClick c) \<or> e = CancelClick \<or>
         (session a' = session a \<and> authme_inflight a' = authme_inflight a)"
  using assms
  by (cases e) (auto split: page_state.splits option.splits if_splits header_item.splits)

lemma reload_fields [simp]:
  "session (reload path a) = \<lparr>auth_data = None, local_token = local_token (session a)\<rparr>"
  "authme_inflight (reload path a) = Some (local_token (session a))"
  by (simp_all add: reload_def Let_def app_init_def app_start_def)

lemma app_init_session [simp]:
  "session (app_init path t) = \<lparr>auth_data = None, local_token = t\<rparr>"
  "authme_inflight (app_init path t) = Some t"
  by (simp_all add: app_init_def app_start_def Let_def)

lemma reload_home_retired [simp]:
  "retired_editors (reload ''/'' a) = []" "retired_views (reload ''/'' a) = []"
  by (simp_all add: reload_def Let_def app_init_def app_start_def app_navigate_def gate_def go_home retire_def)

text \<open>
  The who-am-I request of the current document: while it is in flight, the token it
  carries is the one still stored, and the session has no user payload.
\<close>

definition authme_ok :: "app \<Rightarrow> bool" where
  "authme_ok a \<longleftrightarrow> (case authme_inflight a of
      None \<Rightarrow> True
    | Some t \<Rightarrow> t = local_token (session a) \<and> auth_data (session a) = None)"

lemma authme_ok_init: "authme_ok (app_init path t)"
  by (simp add: authme_ok_def)

lemma authme_ok_step:
  assumes "app_step e a = Some a'" and "authme_ok a"
  shows "authme_ok a'"
proof (cases e)
  case (AuthMeSettles r)
  with assms(1) show ?thesis by (auto simp: authme_ok_def split: option.splits if_splits)
next
  case (LogoutClick c)
  with assms(1) have "auth_data (session a) \<noteq> None"
    and a': "a' = gate (a\<lparr>session := onClickLogout c (session a)\<rparr>)"
    by (simp_all add: header_view_def selectIsAuth_def split: if_splits)
  with assms(2) show ?thesis by (simp add: authme_ok_def split: option.splits)
next
  case CancelClick
  with assms(1) have "a' = reload ''/'' a" by (simp split: page_state.splits)
  then show ?thesis by (simp add: authme_ok_def)
qed (use app_step_session [OF assms(1)] assms(2) in \<open>auto simp: authme_ok_def split: option.splits\<close>)


subsection \<open>Witnesses\<close>


end
