(* ===== verification/App_Bounds.thy ===== *)
theory App_Bounds
  imports App_Shell
begin

text \<open>
  A bound on the network traffic of the client: every event of the application (a
  visit, a user action on a page, a header click, a settlement reaching a mounted or a
  retired page, a reload) appends at most one request to the log of issued requests,
  and never rewrites the log.  It rests on two facts of the pages: a step of the editor
  issues at most one request or requests at most one navigation, not both, and a step of
  the article page issues at most one GET.
\<close>

definition log_ext :: "nat \<Rightarrow> app \<Rightarrow> app \<Rightarrow> bool" where
  "log_ext n a b \<longleftrightarrow> (\<exists>rs. net_log b = net_log a @ rs \<and> length rs \<le> n)"

section \<open>Lemmas\<close>

subsection \<open>The pages\<close>

lemma ed_step_new_bound:
  assumes "ed_step e s = Some s'"
  shows "(length (ed_inflight s') - length (ed_inflight s)) +
         (length (ed_navigations s') - length (ed_navigations s)) \<le> 1"
proof (cases e)
  case (LoadSettles i r)
  with assms obtain req t where tk: "take_inflight i s = Some ((req, KLoad), t)" and s': "s' = load_settle r t"
    by (auto elim: ed_step_LoadSettlesE)
  with take_inflight_fields [OF tk] show ?thesis
    by (cases r) (auto simp: load_then_def ed_set_def ed_alert_def)
next
  case (UploadSettles i r)
  with assms obtain req t where tk: "take_inflight i s = Some ((req, KUpload), t)" and s': "s' = upload_settle r t"
    by (auto elim: ed_step_UploadSettlesE)
  with take_inflight_fields [OF tk] show ?thesis
    by (cases r) (auto simp: ed_set_def ed_alert_def)
next
  case (SubmitSettles i r)
  with assms obtain req b p t where tk: "take_inflight i s = Some ((req, KSubmit b p), t)"
    and s': "s' = submit_settle b p r t" by (auto elim: ed_step_SubmitSettlesE)
  with take_inflight_fields [OF tk] show ?thesis
    by (cases r) (auto simp: ed_alert_def)
qed (use assms in \<open>auto simp: ui_event_def ed_set_def handleChangeFile_def ed_issue_def
       onClickRemoveImage_def onSubmit_def param_change_def load_effect_def split: if_splits\<close>)

subsection \<open>The log\<close>

lemma log_ext_eq: "net_log b = net_log a \<Longrightarrow> log_ext n a b"
  by (auto simp: log_ext_def)

lemma log_ext_trans: "log_ext m a b \<Longrightarrow> log_ext n b c \<Longrightarrow> log_ext (m + n) a c"
  by (auto simp: log_ext_def)

lemma log_ext_mono: "log_ext m a b \<Longrightarrow> m \<le> n \<Longrightarrow> log_ext n a b"
  by (auto simp: log_ext_def)

lemma mount_route_requests: "length (page_requests (mount_route r)) \<le> 1"
  by (auto simp: mount_route_def page_requests_def full_post_mount_requests add_post_mount_def
           load_effect_def ed_issue_def split: option.splits prod.splits route_id.splits list.splits)

lemma route_to_not_kept: "route_to r p = (p', False) \<Longrightarrow> p' = mount_route r"
  by (cases p) (auto simp: route_to_def split: option.splits prod.splits route_id.splits list.splits)

lemma route_to_kept:
  "route_to r p = (p', True) \<Longrightarrow>
   (\<exists>f i. p = FullPostP f \<and> p' = FullPostP (fp_param_change i f)) \<or>
   (\<exists>e x. p = AddPostP e \<and> p' = AddPostP (param_change x e))"
  by (cases p) (auto simp: route_to_def split: option.splits prod.splits route_id.splits list.splits)

lemma param_change_requests:
  "\<exists>rs. ed_inflight (param_change x e) = ed_inflight e @ rs \<and> length rs \<le> 1"
  by (auto simp: param_change_def load_effect_def ed_issue_def)

lemma route_to_kept_requests:
  assumes "route_to r p = (p', True)"
  shows "length (drop (length (page_requests p)) (page_requests p')) \<le> 1"
  using route_to_kept [OF assms]
proof (elim disjE exE conjE)
  fix f i assume "p = FullPostP f" "p' = FullPostP (fp_param_change i f)"
  with fp_param_change_requests [of i f] show ?thesis by (auto simp: page_requests_def)
next
  fix e x assume "p = AddPostP e" "p' = AddPostP (param_change x e)"
  with param_change_requests [of x e] show ?thesis by (auto simp: page_requests_def)
qed

lemma go_log: "log_ext 1 a (go path a)"
proof (cases "route_to (match_route path) (page a)")
  case (Pair p' kept)
  show ?thesis
  proof (cases kept)
    case True
    with Pair route_to_kept_requests [of "match_route path" "page a" p'] show ?thesis
      by (auto simp: go_def log_ext_def)
  next
    case False
    with Pair route_to_not_kept [of "match_route path" "page a" p'] mount_route_requests [of "match_route path"]
    show ?thesis by (auto simp: go_def log_ext_def)
  qed
qed

lemma gate_log [simp]: "net_log (gate a) = net_log a"
  by (simp add: gate_def go_home split: page_state.splits)

lemma navigate_log: "log_ext 1 a (app_navigate path a)"
  using go_log [of a path] by (simp add: app_navigate_def log_ext_def)

lemma follow_log: "log_ext (length ps) a (follow ps a)"
proof (induction ps arbitrary: a)
  case Nil
  then show ?case by (simp add: follow_def log_ext_def)
next
  case (Cons p ps)
  from log_ext_trans [OF navigate_log [of a p] Cons.IH [of "app_navigate p a"]]
  show ?case by (simp add: follow_def)
qed

lemma reload_home_log: "net_log (reload ''/'' a) = net_log a @ [fetchAuthMe_request]"
  by (simp add: reload_def Let_def app_init_def app_start_def app_navigate_def gate_def go_home)

text \<open>
  C27. Bound on requests: every event of the application appends at most one request to
  the log of issued requests, and leaves what was issued before unchanged.  A step of the
  editor issues a request or requests a navigation (which may mount the article page and
  issue its GET), never both; a visit issues at most the GET of the page it mounts or
  re-targets; the redirect of the write gate issues none; the editor's Cancel issues only
  the who-am-I request of the document it loads.
\<close>

theorem app_step_log_bound:
  assumes "app_step e a = Some a'"
  shows "\<exists>rs. net_log a' = net_log a @ rs \<and> length rs \<le> 1"
proof -
  have "log_ext 1 a a'"
  proof (cases e)
    case (Visit path)
    with assms navigate_log show ?thesis by auto
  next
    case (EditorEv v)
    with assms obtain ed ed' where p: "page a = AddPostP ed" and st: "ed_step v ed = Some ed'"
      and a': "a' = follow (drop (length (ed_navigations ed)) (ed_navigations ed'))
              (gate (a\<lparr>page := AddPostP ed',
                       net_log := net_log a @ drop (length (ed_inflight ed)) (map fst (ed_inflight ed'))\<rparr>))"
      by (auto elim!: app_step_EditorEvE simp del: app_step.simps)
    have "log_ext (length (ed_inflight ed') - length (ed_inflight ed)) a
            (gate (a\<lparr>page := AddPostP ed',
                     net_log := net_log a @ drop (length (ed_inflight ed)) (map fst (ed_inflight ed'))\<rparr>))"
      by (auto simp: log_ext_def)
    from log_ext_trans [OF this follow_log [of "drop (length (ed_navigations ed)) (ed_navigations ed')"]]
      ed_step_new_bound [OF st]
    show ?thesis unfolding a' by (auto intro: log_ext_mono)
  next
    case (ViewEv v)
    with assms obtain f f' where st: "fp_step v f = Some f'"
      and a': "a' = a\<lparr>page := FullPostP f',
                 net_log := net_log a @ map HttpGet (drop (length (fp_inflight f)) (fp_inflight f'))\<rparr>"
      by (auto elim!: app_step_ViewEvE simp del: app_step.simps)
    from fp_step_new_bound [OF st] show ?thesis unfolding a' by (auto simp: log_ext_def)
  next
    case (RetiredEditorEv n v)
    with assms obtain ed' where st: "ed_step v (retired_editors a ! n) = Some ed'"
      and a': "a' = follow (drop (length (ed_navigations (retired_editors a ! n))) (ed_navigations ed'))
              (a\<lparr>retired_editors := (retired_editors a)[n := ed'],
                 net_log := net_log a @ drop (length (ed_inflight (retired_editors a ! n)))
                                          (map fst (ed_inflight ed'))\<rparr>)"
      by (auto elim!: app_step_RetiredEditorEvE simp del: app_step.simps)
    have "log_ext (length (ed_inflight ed') - length (ed_inflight (retired_editors a ! n))) a
            (a\<lparr>retired_editors := (retired_editors a)[n := ed'],
               net_log := net_log a @ drop (length (ed_inflight (retired_editors a ! n)))
                                        (map fst (ed_inflight ed'))\<rparr>)"
      by (auto simp: log_ext_def)
    from log_ext_trans [OF this follow_log [of "drop (length (ed_navigations (retired_editors a ! n)))
                                                  (ed_navigations ed')"]]
      ed_step_new_bound [OF st]
    show ?thesis unfolding a' by (auto intro: log_ext_mono)
  next
    case (HeaderLink n)
    with assms navigate_log show ?thesis by (auto split: if_splits header_item.splits)
  next
    case CancelClick
    with assms show ?thesis by (auto simp: log_ext_def reload_home_log split: page_state.splits)
  qed (use assms in \<open>auto intro: log_ext_eq split: if_splits option.splits\<close>)
  then show ?thesis by (simp add: log_ext_def)
qed

subsection \<open>Witnesses\<close>

theorem app_step_log_bound_witness:
  "\<exists>a'. app_step (Visit (post_path ''1'')) (app_init ''/'' (Some ''tok'')) = Some a' \<and>
     net_log a' = [fetchAuthMe_request, HttpGet (post_path ''1'')] \<and>
     (\<exists>rs. net_log a' = net_log (app_init ''/'' (Some ''tok'')) @ rs \<and> length rs \<le> 1)"
proof -
  have m: "match_route (post_path ''1'') = Some (RPost, [''1''])" by (rule match_route_post) simp_all
  define a' where "a' = app_navigate (post_path ''1'') (app_init ''/'' (Some ''tok''))"
  have st: "app_step (Visit (post_path ''1'')) (app_init ''/'' (Some ''tok'')) = Some a'"
    by (simp add: a'_def)
  have l: "net_log a' = [fetchAuthMe_request, HttpGet (post_path ''1'')]"
    by (simp add: a'_def app_eval m full_post_mount_def fp_effect_def)
  from app_step_log_bound [OF st] st l show ?thesis by blast
qed

end
