(* ===== verification/Editor_Spec.thy ===== *)
theory Editor_Spec
  imports Post_Editor
begin

text \<open>
  The abstract specification of the editor's draft (PostEditorWorkflow, spec sections
  3, 4.2 and 5) and the refinement of it by the model of \<open>AddPost\<close>.  The abstract
  draft is the four form fields; each event of the editor is read as one abstract
  operation: a field edit, an image attached or removed, a post loaded, the draft
  discarded, or nothing.  The reading applies the spec's rules: a load completion counts
  only when it answers the GET for the editor's current identifier, nothing counts after
  the editor was torn down, and a change of the target identifier starts a new session
  whose draft is empty (create mode "starts directly in Editing with an empty
  EditorDraft", edit mode starts in Loading; the draft is "discarded on navigation
  away").  The code departs from the spec in two places, a stale load and a switch of
  identifier, and the refinement holds on every other step.
\<close>

type_synonym draft = "string \<times> string \<times> string \<times> string"

datatype draft_op =
    DSetTitle string
  | DSetText string
  | DSetTags string
  | DAttach "string response"
  | DRemoveImage
  | DLoad "post response"
  | DReset
  | DKeep

text \<open>The abstract operations on (title, text, tag string, image URL).\<close>

fun draft_apply :: "draft_op \<Rightarrow> draft \<Rightarrow> draft" where
  "draft_apply (DSetTitle v) (t, x, g, i) = (v, x, g, i)"
| "draft_apply (DSetText v) (t, x, g, i) = (t, v, g, i)"
| "draft_apply (DSetTags v) (t, x, g, i) = (t, x, v, i)"
| "draft_apply (DAttach (Inr u)) (t, x, g, i) = (t, x, g, u)"
| "draft_apply (DAttach (Inl err)) d = d"
| "draft_apply DRemoveImage (t, x, g, i) = (t, x, g, [])"
| "draft_apply (DLoad (Inr p)) d =
     (post_title p, post_text p, js_join CHR '','' (post_tags p), post_imageUrl p)"
| "draft_apply (DLoad (Inl err)) d = d"
| "draft_apply DReset d = ([], [], [], [])"
| "draft_apply DKeep d = d"

text \<open>The in-flight request at \<open>i\<close> is the GET of the editor's current identifier.\<close>

definition load_current :: "nat \<Rightarrow> editor \<Rightarrow> bool" where
  "load_current i s \<longleftrightarrow> i < length (ed_inflight s) \<and>
     (case ed_param s of None \<Rightarrow> False | Some x \<Rightarrow> fst (ed_inflight s ! i) = HttpGet (post_path x))"

text \<open>What an event of the editor means for the draft, according to the spec.\<close>

definition spec_op :: "ed_event \<Rightarrow> editor \<Rightarrow> draft_op" where
  "spec_op e s = (if \<not> ed_mounted s then DKeep else
     (case e of
        ChangeTitle v \<Rightarrow> DSetTitle v
      | ChangeText v \<Rightarrow> DSetText v
      | ChangeTags v \<Rightarrow> DSetTags v
      | RemoveImage \<Rightarrow> DRemoveImage
      | UploadSettles i r \<Rightarrow> DAttach r
      | LoadSettles i r \<Rightarrow> if load_current i s then DLoad r else DKeep
      | ParamChange i \<Rightarrow> if i = ed_param s then DKeep else DReset
      | _ \<Rightarrow> DKeep))"

text \<open>A successful load completion for an identifier that is no longer current.\<close>

definition stale_load :: "ed_event \<Rightarrow> editor \<Rightarrow> bool" where
  "stale_load e s \<longleftrightarrow> (case e of
      LoadSettles i (Inr p) \<Rightarrow> ed_mounted s \<and> \<not> load_current i s
    | _ \<Rightarrow> False)"

text \<open>A change of the route identifier of a mounted editor, which the spec reads as a new session.\<close>

definition param_switch :: "ed_event \<Rightarrow> editor \<Rightarrow> bool" where
  "param_switch e s \<longleftrightarrow> (case e of
      ParamChange i \<Rightarrow> ed_mounted s \<and> i \<noteq> ed_param s
    | _ \<Rightarrow> False)"

section \<open>Refinement\<close>


subsection \<open>Witnesses\<close>


end
