(* ===== verification/Spec2Isabelle.thy ===== *)
theory Spec2Isabelle
  imports App_Session App_Bounds Editor_Spec
begin

text \<open>
  \<^bold>\<open>A verification model of the wizmine blog client.\<close>

  The repository is a React single-page client of a blog service (src/src).  Four
  source files carry its logic: \<open>App.js\<close> (route table and the start-up call
  \<open>fetchAuthMe\<close>), \<open>components/Header/index.jsx\<close> (links and buttons depending on
  the session, logout), \<open>pages/AddPost/index.jsx\<close> (create/edit form: the spec's
  PostEditorWorkflow, with the write gate, the spec's AuthGate) and
  \<open>pages/FullPost.jsx\<close> (article page: PostViewWorkflow).  They interact through the
  router (a location selects and mounts a page; pages navigate), through the redux
  session read by the gate and the header, and through HTTP requests whose promises
  settle later, in any order, and run the closures that issued them, also after the
  page that issued them has unmounted.

  \<^bold>\<open>Theories.\<close>
  \<^item> \<open>Blog_Prelude\<close>: the JavaScript string operations the pages call
    (\<open>replace(/\s/g, "")\<close> as \<open>js_strip_ws\<close>, \<open>split\<close> as \<open>js_split\<close>,
    \<open>join\<close> as \<open>js_join\<close>, truthiness and template literals of possibly undefined
    values), the Post resource and the request/response contract of spec section 6
    (requests as values, a rejected promise as the left summand of \<open>'a response\<close>), and
    the split/join lemmas the components share.
  \<^item> \<open>Auth_Gate\<close>: the session (\<open>auth_session\<close>: payload of the auth slice and the
    token in \<open>localStorage\<close>), the gate \<open>can_write\<close> (AddPost line 107), the header's
    items \<open>header_items\<close> and \<open>onClickLogout\<close>.  The auth slice is not under src/:
    its selector, \<open>logout\<close> reducer, the who-am-I request and the settlement of
    \<open>fetchAuthMe\<close> are modelled from the spec.
  \<^item> \<open>Post_Editor\<close>: \<open>AddPost\<close> as a record of its hooks plus the requests in flight
    with the continuation each awaiting closure will run; one definition per handler
    (\<open>handleChangeFile\<close>/\<open>upload_settle\<close>, \<open>onClickRemoveImage\<close>,
    \<open>onSubmit\<close>/\<open>submit_settle\<close>, the load effect \<open>load_effect\<close>/\<open>load_settle\<close>,
    \<open>param_change\<close>, \<open>render_add_post\<close>), the event step \<open>ed_step\<close> in which any
    in-flight request may settle next, and the reachable states \<open>ed_reach\<close>.
  \<^item> \<open>Editor_Spec\<close>: the spec's abstract draft machine (\<open>draft_apply\<close> over
    abstract operations, \<open>spec_op\<close> reading each event with the spec's rules: discard
    of stale loads, nothing after teardown, an empty draft for a new target identifier).
  \<^item> \<open>Post_View\<close>: \<open>FullPost\<close> likewise (\<open>fp_step\<close>, \<open>fp_reach\<close> over runs
    in which the server answers each GET with the post it names), and its rendering into
    the props of \<open>Post\<close>.
  \<^item> \<open>Routes\<close>: the route table of \<open>App\<close> and React Router's matching
    (\<open>match_route\<close>: segments, \<open>:id\<close> non-empty, literals case-insensitive, trailing
    slashes ignored).
  \<^item> \<open>App_Shell\<close>: the composition: location, session, mounted page, the log of
    issued requests, the retired pages (pages that unmounted with requests in flight,
    whose closures still run) and the who-am-I request in flight with the token it
    carries; \<open>go\<close> routes (keeping a component whose element stays the same,
    retiring the one that unmounts), \<open>gate\<close> performs the redirect the editor's render
    causes (\<open>render_loop\<close> is React's render cycle it abbreviates), \<open>app_step\<close>
    forwards the pages' own events (parameter changes and unmounts come only from the
    router), header clicks and the settlements reaching retired pages, and follows the
    navigations they request; \<open>app_init\<close> is start-up (the page's effects, then
    \<open>App\<close>'s \<open>fetchAuthMe\<close>), \<open>reload\<close> the document load of the editor's
    Cancel anchor, and \<open>app_reach\<close> the states reachable from start-up.
  \<^item> \<open>App_Session\<close>: the events that change the session and the invariant relating
    the who-am-I request in flight to the session.
  \<^item> \<open>App_Bounds\<close>: the bound on the requests a single event can issue, from the
    per-page facts that an editor step issues a request or a navigation but not both and
    that a view step issues at most one GET.
  \<^item> this theory: the spec's end-to-end scenarios over the composition.

  \<^bold>\<open>What the lemmas show.\<close>  Editor: the tag round trip and where it breaks (empty tag
  list), the shape of derived tags, that failed uploads and submits keep the draft, that
  successful submits navigate to the patched or the server-assigned article (from the
  invariant \<open>ed_wf\<close> that every in-flight request agrees with its continuation), that
  \<open>isLoading\<close> is set once and never cleared; that the editor refines the spec's
  abstract draft machine on every step but two, a stale load and a switch of the target
  identifier; and, as findings, that a stale GET fills the form of another article, that
  double submission is not prevented, and that a submit issued while an upload is in
  flight sends the previous image.  View: rendering never dereferences undefined data
  (invariant), a loaded article is rendered with its image resolved against the
  attachment host, a failed load leaves the skeleton, and stale articles are displayed
  after an id change or an out-of-order reply.  Routes: the table is unambiguous and
  \<open>/posts/<id>\<close> and \<open>/posts/<id>/edit\<close> route back to the same identifier.
  Shell: in every reachable state a mounted editor passes the gate, every live editor's
  requests are well-typed, the page on screen is mounted, and a who-am-I request in
  flight carries the stored token while no payload is set (so it never races with a
  logout); the render cycle terminates; an unauthenticated visit of \<open>/add-post\<close> ends
  at home without a request, but one of \<open>/posts/<id>/edit\<close> issues the GET; logout on
  the editor redirects home; the header's write link always reaches the editor; the
  token is trusted after a rejected \<open>fetchAuthMe\<close>; a submit that settles after the
  author left the editor still navigates the application; starting a new article from
  the edit page posts a copy of the edited post; and every event issues at most one
  request.

  \<^bold>\<open>Bounds and fuel.\<close>  No loop of the program needs fuel: the string operations are
  structural recursions, the pages' behaviour is a step function over events, and runs
  are finite event lists; reachability is an inductive predicate.  React's render cycle
  is a \<open>while_option\<close>, proved to stop after at most one redirect.  There are no
  machine integers (JavaScript numbers occur only as the constant \<open>commentsCount\<close>
  and the views count, which the client passes through).

  \<^bold>\<open>Not modelled.\<close>  Visual components (\<open>Post\<close>, \<open>CommentsBlock\<close>,
  \<open>AddComment\<close>, Home, Login, Registration), SimpleMDE's behaviour (its options
  object is modelled as data of the rendered form; what the library does with autosave
  requested without a \<open>uniqueId\<close> is not), the axios instance and the server (requests
  are recorded, responses are chosen by the environment), percent-decoding of route
  parameters, characters outside Latin-1 in strings, a Post whose JSON lacks the
  \<open>tags\<close> or \<open>imageUrl\<close> field, and \<open>alert\<close> as a blocking dialog (alerts are
  recorded in the page's state).  The Login and Registration pages are not in the
  sources, so no event of the model logs a user in: a session payload comes only from
  the start-up who-am-I.  Component reuse between \<open>/posts/:id/edit\<close> and
  \<open>/add-post\<close> follows React's reconciliation of the same element type at the same
  position; that an unmounted component's \<open>navigate\<close> still changes the location
  follows React Router 6's \<open>useNavigate\<close>, which does not reset on unmount.

  The environment is free in what the server answers, with one constraint from the
  spec: who-am-I succeeds only for a request that carries a token.

  The view is not given a refinement of the spec's machine (Loading/Ready/Error): the
  code departs from it in three ways, each proved as a finding (a failure leaves the
  skeleton instead of an error state, an id change keeps the old article, an
  out-of-order reply shows a stale one), and on the remaining runs (one id, successful
  answers) the correspondence is the theorem that a success renders the post.

  The redux auth slice and the axios instance are not part of the repository's
  sources; they are modelled only as far as the spec describes them (selector, logout,
  the who-am-I request and its settlement, requests as values), which is why the slice
  stays partly modelled and the transport unmodelled.  Of the four source files,
  everything but imports, component headers and closing markup is modelled.
\<close>

text \<open>
  C19. Scenario D: an actor with neither a stored token nor a session payload who opens
  \<open>/add-post\<close> ends at \<open>/\<close> on the home page, and the visit issues no request.
\<close>

theorem unauthenticated_add_post_redirects:
  assumes "\<not> can_write (session a)"
  shows "location (app_navigate ''/add-post'' a) = ''/'' \<and> page (app_navigate ''/add-post'' a) = HomeP \<and>
         net_log (app_navigate ''/add-post'' a) = net_log a"
  using assms
  by (cases "page a")
     (simp_all add: app_navigate_def go_def route_to_def mount_route_def page_requests_def gate_def
        go_home add_post_mount_def load_effect_def param_change_def)

text \<open>
  C22. Scenario A: an authenticated author creates "Hello"/"World" with the tag field
  \<open>"a, b ,c"\<close> and no image; the request sent is \<open>POST /posts\<close> with tags
  \<open>["a","b","c"]\<close> and an empty image URL, and when the server answers with a post of
  identifier \<open>i\<close> the application is at \<open>/posts/<i>\<close> with the article page
  mounted and fetching it.
\<close>

theorem scenario_A_create:
  assumes "i \<noteq> []" and "CHR ''/'' \<notin> set i" and "post_id d = i"
  shows "\<exists>a. app_run [EditorEv (ChangeTitle ''Hello''), EditorEv (ChangeText ''World''),
            EditorEv (ChangeTags ''a, b ,c''), EditorEv Submit, EditorEv (SubmitSettles 0 (Inr d))]
            (app_init ''/add-post'' (Some ''tok'')) = Some a \<and>
          location a = post_path i \<and> page a = FullPostP (full_post_mount i) \<and>
          net_log a = [fetchAuthMe_request, HttpPost ''/posts'' (Fields \<lparr>fld_title = ''Hello'', fld_imageUrl = [],
             fld_tags = [''a'', ''b'', ''c''], fld_text = ''World''\<rparr>), HttpGet (post_path i)]"
proof -
  have t: "derive_tags ''a, b ,c'' = [''a'', ''b'', ''c'']"
    by (simp add: derive_tags_def js_split_def js_strip_ws_def js_is_space_def js_ws_codes_def)
  from match_route_post [OF assms(1,2)] have m: "match_route (post_path i) = Some (RPost, [i])" .
  show ?thesis
    using assms(3) m t
    by (simp add: app_eval full_post_mount_def fp_effect_def)
qed

text \<open>
  C30. Leaving the editor does not cancel a create: an author who submits on
  \<open>/add-post\<close> and goes back to \<open>/\<close> before the server answers is taken to
  \<open>/posts/<id>\<close> when the POST succeeds, although the editor was torn down (the spec
  requires a torn-down component to ignore its completions).
\<close>

theorem scenario_late_create_after_leaving:
  assumes "i \<noteq> []" and "CHR ''/'' \<notin> set i" and "post_id d = i"
  shows "\<exists>a. app_run [EditorEv (ChangeTitle ''Hello''), EditorEv Submit, Visit ''/'',
            RetiredEditorEv 0 (SubmitSettles 0 (Inr d))]
            (app_init ''/add-post'' (Some ''tok'')) = Some a \<and>
          location a = post_path i \<and> page a = FullPostP (full_post_mount i) \<and>
          retired_editors a = [(add_post_mount None)\<lparr>ed_title := ''Hello'', isLoading := True,
             ed_mounted := False, ed_navigations := [post_path i]\<rparr>] \<and>
          net_log a = [fetchAuthMe_request, HttpPost ''/posts'' (Fields \<lparr>fld_title = ''Hello'', fld_imageUrl = [],
             fld_tags = [[]], fld_text = []\<rparr>), HttpGet (post_path i)]"
proof -
  from match_route_post [OF assms(1,2)] have m: "match_route (post_path i) = Some (RPost, [i])" .
  show ?thesis
    using assms(3) m
    by (simp add: app_eval full_post_mount_def fp_effect_def remove_nth_def derive_tags_def js_split_def)
qed

text \<open>
  C23. Starting a new article from the edit page does not start from an empty draft.
  From every reachable state in which the editor is on screen for a post, following
  \<open>/add-post\<close> (the header's "Write an article") keeps the same \<open>AddPost\<close>, whose
  effect issues nothing for a missing id, and Create then sends \<open>POST /posts\<close> with
  the edited post's draft: its title, text, image and tags are copied into a new
  article.  The spec starts create mode with an empty draft (\<open>spec_op\<close> reads the
  change of identifier as a reset).
\<close>

theorem create_after_edit_posts_edit_draft:
  assumes "app_reach a" and "page a = AddPostP e" and "ed_param e = Some x"
  shows "\<exists>b. app_run [Visit ''/add-post'', EditorEv Submit] a = Some b \<and> location b = ''/add-post'' \<and>
           net_log b = net_log a @ [HttpPost ''/posts'' (Fields (submit_fields e))] \<and>
           draft_apply (spec_op (ParamChange None) e) (ed_draft e) = ([], [], [], [])"
proof -
  from app_reach_gate_ok [OF assms(1)] assms(2) have g: "can_write (session a)"
    by (simp add: gate_ok_def)
  from app_reach_page_mounted [OF assms(1)] assms(2) have m: "ed_mounted e"
    by (simp add: page_mounted_def)
  have r: "match_route ''/add-post'' = Some (RAdd, [])"
    using js_split_no_sep [of "CHR ''/''" "''add-post''"] by (simp add: route_eval)
  define e1 where "e1 = e\<lparr>ed_param := None\<rparr>"
  have nav: "app_navigate ''/add-post'' a = a\<lparr>location := ''/add-post'', page := AddPostP e1\<rparr>"
    using assms(2,3) g
    by (simp add: app_navigate_def go_def route_to_def r param_change_def load_effect_def e1_def
                  page_requests_def gate_def js_truthy_def)
  have sub: "submit_request e1 = HttpPost ''/posts'' (Fields (submit_fields e))"
    by (simp add: submit_request_def is_editing_def js_truthy_def e1_def submit_fields_def)
  have "app_step (EditorEv Submit) (a\<lparr>location := ''/add-post'', page := AddPostP e1\<rparr>) =
        Some (a\<lparr>location := ''/add-post'', page := AddPostP (onSubmit e1),
                net_log := net_log a @ [HttpPost ''/posts'' (Fields (submit_fields e))]\<rparr>)"
    using m g sub
    by (simp add: ed_page_event_def ui_event_def e1_def onSubmit_def ed_issue_def ed_set_def
                  follow_def gate_def)
  moreover have "draft_apply (spec_op (ParamChange None) e) (ed_draft e) = ([], [], [], [])"
    using m assms(3) by (simp add: spec_op_def)
  ultimately show ?thesis by (simp add: nav)
qed

theorem unauthenticated_add_post_redirects_witness:
  "\<not> can_write (session (app_init ''/'' None)) \<and>
   location (app_navigate ''/add-post'' (app_init ''/'' None)) = ''/'' \<and>
   page (app_navigate ''/add-post'' (app_init ''/'' None)) = HomeP \<and>
   net_log (app_navigate ''/add-post'' (app_init ''/'' None)) = [fetchAuthMe_request]"
proof -
  have c: "\<not> can_write (session (app_init ''/'' None))" and n: "net_log (app_init ''/'' None) = [fetchAuthMe_request]"
    by (simp_all add: app_eval)
  from unauthenticated_add_post_redirects [OF c] c n show ?thesis by simp
qed

theorem scenario_A_create_witness:
  "\<exists>a. app_run [EditorEv (ChangeTitle ''Hello''), EditorEv (ChangeText ''World''),
            EditorEv (ChangeTags ''a, b ,c''), EditorEv Submit,
            EditorEv (SubmitSettles 0 (Inr \<lparr>post_id = ''42'', post_title = ''Hello'', post_text = ''World'',
              post_tags = [''a'', ''b'', ''c''], post_imageUrl = [], post_user = ''u'',
              post_createdAt = [], post_viewsCount = 0\<rparr>))]
            (app_init ''/add-post'' (Some ''tok'')) = Some a \<and>
          location a = ''/posts/42'' \<and> page a = FullPostP (full_post_mount ''42'') \<and>
          net_log a = [fetchAuthMe_request, HttpPost ''/posts'' (Fields \<lparr>fld_title = ''Hello'', fld_imageUrl = [],
             fld_tags = [''a'', ''b'', ''c''], fld_text = ''World''\<rparr>), HttpGet ''/posts/42'']"
  using scenario_A_create [of "''42''" "\<lparr>post_id = ''42'', post_title = ''Hello'', post_text = ''World'',
              post_tags = [''a'', ''b'', ''c''], post_imageUrl = [], post_user = ''u'',
              post_createdAt = [], post_viewsCount = 0\<rparr>"]
  by (simp add: post_path_def)

theorem scenario_late_create_after_leaving_witness:
  "\<exists>a. app_run [EditorEv (ChangeTitle ''Hello''), EditorEv Submit, Visit ''/'',
            RetiredEditorEv 0 (SubmitSettles 0 (Inr \<lparr>post_id = ''42'', post_title = ''Hello'',
              post_text = [], post_tags = [[]], post_imageUrl = [], post_user = ''u'',
              post_createdAt = [], post_viewsCount = 0\<rparr>))]
            (app_init ''/add-post'' (Some ''tok'')) = Some a \<and>
          location a = ''/posts/42'' \<and> page a = FullPostP (full_post_mount ''42'') \<and>
          retired_editors a = [(add_post_mount None)\<lparr>ed_title := ''Hello'', isLoading := True,
             ed_mounted := False, ed_navigations := [''/posts/42'']\<rparr>] \<and>
          net_log a = [fetchAuthMe_request, HttpPost ''/posts'' (Fields \<lparr>fld_title = ''Hello'', fld_imageUrl = [],
             fld_tags = [[]], fld_text = []\<rparr>), HttpGet ''/posts/42'']"
  using scenario_late_create_after_leaving [of "''42''" "\<lparr>post_id = ''42'', post_title = ''Hello'',
              post_text = [], post_tags = [[]], post_imageUrl = [], post_user = ''u'',
              post_createdAt = [], post_viewsCount = 0\<rparr>"]
  by (simp add: post_path_def)

theorem create_after_edit_posts_edit_draft_witness:
  "\<exists>a b. app_run [EditorEv (LoadSettles 0 (Inr \<lparr>post_id = ''1'', post_title = ''One'', post_text = ''Body'',
            post_tags = [''x''], post_imageUrl = ''/uploads/1.png'', post_user = ''u'', post_createdAt = [],
            post_viewsCount = 0\<rparr>))] (app_init ''/posts/1/edit'' (Some ''tok'')) = Some a \<and>
     app_run [Visit ''/add-post'', EditorEv Submit] a = Some b \<and> location b = ''/add-post'' \<and>
     net_log b = [HttpGet ''/posts/1'', fetchAuthMe_request,
       HttpPost ''/posts'' (Fields \<lparr>fld_title = ''One'', fld_imageUrl = ''/uploads/1.png'',
                                     fld_tags = [''x''], fld_text = ''Body''\<rparr>)]"
proof -
  define p where "p = \<lparr>post_id = ''1'', post_title = ''One'', post_text = ''Body'',
            post_tags = [''x''], post_imageUrl = ''/uploads/1.png'', post_user = ''u'', post_createdAt = [],
            post_viewsCount = (0::nat)\<rparr>"
  have m: "match_route ''/posts/1/edit'' = Some (REdit, [''1''])"
    using match_route_edit [of "''1''"] by (simp add: post_path_def)
  define a where "a = the (app_run [EditorEv (LoadSettles 0 (Inr p))] (app_init ''/posts/1/edit'' (Some ''tok'')))"
  have run: "app_run [EditorEv (LoadSettles 0 (Inr p))] (app_init ''/posts/1/edit'' (Some ''tok'')) = Some a"
    by (simp add: a_def p_def app_eval m post_path_def js_template_def)
  have r: "app_reach a" by (rule app_run_reach [OF run app_reach.init])
  define e where "e = (case page a of AddPostP e \<Rightarrow> e)"
  have pa: "page a = AddPostP e" by (simp add: e_def a_def p_def app_eval m post_path_def js_template_def)
  have pr: "ed_param e = Some ''1''" by (simp add: e_def a_def p_def app_eval m post_path_def js_template_def)
  have f: "submit_fields e = \<lparr>fld_title = ''One'', fld_imageUrl = ''/uploads/1.png'',
                                fld_tags = [''x''], fld_text = ''Body''\<rparr>"
    by (simp add: e_def a_def p_def app_eval m post_path_def js_template_def submit_fields_def derive_tags_def js_split_def
                  js_strip_ws_def js_is_space_def js_ws_codes_def)
  have l: "net_log a = [HttpGet ''/posts/1'', fetchAuthMe_request]"
    by (simp add: a_def p_def app_eval m post_path_def js_template_def)
  from create_after_edit_posts_edit_draft [OF r pa pr] obtain b where
    "app_run [Visit ''/add-post'', EditorEv Submit] a = Some b" "location b = ''/add-post''"
    "net_log b = net_log a @ [HttpPost ''/posts'' (Fields (submit_fields e))]" by blast
  with run f l show ?thesis unfolding p_def by auto
qed

end
